theory Spec2Isabelle
  imports Complex_Main "HOL-Library.Multiset"
begin

section \<open>Delivery generation, assignment, routing and lifecycle: the embedding\<close>

text \<open>
  The development embeds the delivery services of the milk-subscription API
  (\<^verbatim>\<open>delivery.service.ts\<close>, \<^verbatim>\<open>deliveryBoy.service.ts\<close>, \<^verbatim>\<open>subscription.service.ts\<close>,
  \<^verbatim>\<open>admin.service.ts\<close>).  Database tables are lists of rows in insertion order, a Prisma
  \<^verbatim>\<open>findFirst\<close> is \<^const>\<open>find\<close> on that list, \<^verbatim>\<open>findMany\<close> is \<^const>\<open>filter\<close>, and every
  thrown \<^verbatim>\<open>ApiError\<close> is the left injection of a sum.
\<close>

subsection \<open>Strings\<close>

text \<open>
  A string is the list of the bytes of its UTF-8 encoding.  \<^verbatim>\<open>toUpperCase\<close> maps the ASCII
  letters, and the characters outside ASCII whose upper case consists of ASCII letters:
  U+0131 to \<^verbatim>\<open>I\<close>, U+017F to \<^verbatim>\<open>S\<close>, U+00DF to \<^verbatim>\<open>SS\<close>, and the ligatures U+FB00 to U+FB06
  to \<^verbatim>\<open>FF\<close>, \<^verbatim>\<open>FI\<close>, \<^verbatim>\<open>FL\<close>, \<^verbatim>\<open>FFI\<close>, \<^verbatim>\<open>FFL\<close>, \<^verbatim>\<open>ST\<close>, \<^verbatim>\<open>ST\<close>.  The upper case of every
  other character has a byte outside ASCII, as the character itself has, and such a
  character keeps its bytes here: the result equals an ASCII string exactly when the
  result of \<^verbatim>\<open>String.prototype.toUpperCase\<close> does.
\<close>

definition toUpperChar :: "char \<Rightarrow> char" where
  "toUpperChar c =
     (let n = (of_char c :: nat) in if 97 \<le> n \<and> n \<le> 122 then char_of (n - 32) else c)"

definition upper2 :: "char \<Rightarrow> char \<Rightarrow> string" where
  "upper2 a b =
     (if a = CHR 0xC4 \<and> b = CHR 0xB1 then ''I''
      else if a = CHR 0xC5 \<and> b = CHR 0xBF then ''S''
      else if a = CHR 0xC3 \<and> b = CHR 0x9F then ''SS''
      else [])"

definition upper3 :: "char \<Rightarrow> char \<Rightarrow> char \<Rightarrow> string" where
  "upper3 a b c =
     (if a = CHR 0xEF \<and> b = CHR 0xAC then
        (if c = CHR 0x80 then ''FF''
         else if c = CHR 0x81 then ''FI''
         else if c = CHR 0x82 then ''FL''
         else if c = CHR 0x83 then ''FFI''
         else if c = CHR 0x84 then ''FFL''
         else if c = CHR 0x85 then ''ST''
         else if c = CHR 0x86 then ''ST''
         else [])
      else [])"

fun toUpperCase :: "string \<Rightarrow> string" where
  "toUpperCase (a # b # c # cs) =
     (if upper3 a b c \<noteq> [] then upper3 a b c @ toUpperCase cs
      else if upper2 a b \<noteq> [] then upper2 a b @ toUpperCase (c # cs)
      else toUpperChar a # toUpperCase (b # c # cs))"
| "toUpperCase [a, b] =
     (if upper2 a b \<noteq> [] then upper2 a b else [toUpperChar a, toUpperChar b])"
| "toUpperCase [a] = [toUpperChar a]"
| "toUpperCase [] = []"

text \<open>
  \<^verbatim>\<open>split(',')\<close>, the substring test of Prisma's \<^verbatim>\<open>contains\<close> filter (SQL \<^verbatim>\<open>LIKE '%p%'\<close>,
  compared byte by byte; a collation that folds letter case agrees with it on the
  digits and commas of pincode strings) and \<^verbatim>\<open>trim()\<close>.  The white space that \<^verbatim>\<open>trim\<close> removes is
  \<^verbatim>\<open>WhiteSpace\<close> and \<^verbatim>\<open>LineTerminator\<close> of ECMAScript: the six ASCII characters, U+00A0,
  U+1680, U+2000 to U+200A, U+2028, U+2029, U+202F, U+205F, U+3000 and U+FEFF.
\<close>

fun startsWith :: "string \<Rightarrow> string \<Rightarrow> bool" where
  "startsWith s [] = True"
| "startsWith [] (p # ps) = False"
| "startsWith (c # cs) (p # ps) = (c = p \<and> startsWith cs ps)"

fun contains :: "string \<Rightarrow> string \<Rightarrow> bool" where
  "contains [] sub = (sub = [])"
| "contains (c # cs) sub = (startsWith (c # cs) sub \<or> contains cs sub)"

fun split :: "char \<Rightarrow> string \<Rightarrow> string list" where
  "split sep [] = [[]]"
| "split sep (c # cs) =
     (if c = sep then [] # split sep cs
      else (case split sep cs of [] \<Rightarrow> [[c]] | w # ws \<Rightarrow> (c # w) # ws))"

definition isWhiteSpace :: "char \<Rightarrow> bool" where
  "isWhiteSpace c = ((of_char c :: nat) \<in> {9, 10, 11, 12, 13, 32})"

definition isWhiteSpace2 :: "char \<Rightarrow> char \<Rightarrow> bool" where
  "isWhiteSpace2 a b = (a = CHR 0xC2 \<and> b = CHR 0xA0)"

definition isWhiteSpace3 :: "char \<Rightarrow> char \<Rightarrow> char \<Rightarrow> bool" where
  "isWhiteSpace3 a b c =
     (a = CHR 0xE1 \<and> b = CHR 0x9A \<and> c = CHR 0x80 \<or>
      a = CHR 0xE2 \<and> b = CHR 0x80 \<and>
        ((128 :: nat) \<le> of_char c \<and> (of_char c :: nat) \<le> 138 \<or>
         c = CHR 0xA8 \<or> c = CHR 0xA9 \<or> c = CHR 0xAF) \<or>
      a = CHR 0xE2 \<and> b = CHR 0x81 \<and> c = CHR 0x9F \<or>
      a = CHR 0xE3 \<and> b = CHR 0x80 \<and> c = CHR 0x80 \<or>
      a = CHR 0xEF \<and> b = CHR 0xBB \<and> c = CHR 0xBF)"

text \<open>White space dropped from the front, and from the front of the reversed string.\<close>

fun trimStart :: "string \<Rightarrow> string" where
  "trimStart (a # b # c # cs) =
     (if isWhiteSpace a then trimStart (b # c # cs)
      else if isWhiteSpace2 a b then trimStart (c # cs)
      else if isWhiteSpace3 a b c then trimStart cs
      else a # b # c # cs)"
| "trimStart [a, b] =
     (if isWhiteSpace a then trimStart [b] else if isWhiteSpace2 a b then [] else [a, b])"
| "trimStart [a] = (if isWhiteSpace a then [] else [a])"
| "trimStart [] = []"

fun trimStartRev :: "string \<Rightarrow> string" where
  "trimStartRev (a # b # c # cs) =
     (if isWhiteSpace a then trimStartRev (b # c # cs)
      else if isWhiteSpace2 b a then trimStartRev (c # cs)
      else if isWhiteSpace3 c b a then trimStartRev cs
      else a # b # c # cs)"
| "trimStartRev [a, b] =
     (if isWhiteSpace a then trimStartRev [b] else if isWhiteSpace2 b a then [] else [a, b])"
| "trimStartRev [a] = (if isWhiteSpace a then [] else [a])"
| "trimStartRev [] = []"

definition trim :: "string \<Rightarrow> string" where
  "trim s = rev (trimStartRev (rev (trimStart s)))"

text \<open>\<^verbatim>\<open>Array.prototype.includes\<close> on strings.\<close>

definition includesStr :: "string list \<Rightarrow> string \<Rightarrow> bool" where
  "includesStr xs x = (x \<in> set xs)"

subsection \<open>Dates\<close>

text \<open>
  A \<^verbatim>\<open>Date\<close> is its time value, the milliseconds since the epoch.  The server's time zone
  is a pair of functions: \<open>utcOffset z t\<close> is the offset of local time from UTC at the
  instant \<open>t\<close>, and \<open>wallOffset z w\<close> is the offset by which the local wall-clock time \<open>w\<close>
  is read back as an instant (ECMAScript's \<^verbatim>\<open>LocalTZA(t, true)\<close> and \<^verbatim>\<open>LocalTZA(w, false)\<close>).
  \<^verbatim>\<open>setHours(0, 0, 0, 0)\<close> takes the local time of the date, cuts it to the start of its
  day and reads that wall-clock time back.
\<close>

type_synonym date = int

record zone =
  utcOffset :: "int \<Rightarrow> int"
  wallOffset :: "int \<Rightarrow> int"

definition msPerDay :: int where
  "msPerDay = 1000 * 60 * 60 * 24"

definition setHours0 :: "zone \<Rightarrow> date \<Rightarrow> date" where
  "setHours0 tz t =
     (let localTime = t + utcOffset tz t;
          midnight = localTime - localTime mod msPerDay
      in midnight - wallOffset tz midnight)"

text \<open>The calendar day a date falls on in the server's zone, counted from the epoch.\<close>

definition dayNumber :: "zone \<Rightarrow> date \<Rightarrow> int" where
  "dayNumber tz t = (t + utcOffset tz t) div msPerDay"

text \<open>
  A zone with one offset all year (UTC is \<open>fixedZone 0\<close>, India Standard Time is
  \<open>fixedZone 19800000\<close>), and New York in 2024: UTC-5, and UTC-4 from 2024-03-10 07:00 UTC
  to 2024-11-03 06:00 UTC.
\<close>

definition fixedZone :: "int \<Rightarrow> zone" where
  "fixedZone offset = \<lparr>utcOffset = (\<lambda>t. offset), wallOffset = (\<lambda>w. offset)\<rparr>"

definition newYork :: zone where
  "newYork =
     \<lparr>utcOffset = (\<lambda>t. if 1710054000000 \<le> t \<and> t < 1730613600000
                         then - 14400000 else - 18000000),
      wallOffset = (\<lambda>w. if 1710039600000 \<le> w \<and> w < 1730599200000
                          then - 14400000 else - 18000000)\<rparr>"

subsection \<open>Numbers\<close>

text \<open>
  A JavaScript \<^verbatim>\<open>number\<close>: a finite value, an infinity or NaN.  Finite doubles are read as
  the reals they denote; the only operations taken from the source are truthiness and
  the comparison \<^verbatim>\<open><\<close>, both exact on doubles.
\<close>

datatype number = Num real | PosInfinity | NegInfinity | NaN

fun truthy :: "number \<Rightarrow> bool" where
  "truthy (Num x) = (x \<noteq> 0)"
| "truthy PosInfinity = True"
| "truthy NegInfinity = True"
| "truthy NaN = False"

fun lessThan :: "number \<Rightarrow> number \<Rightarrow> bool" where
  "lessThan NaN y = False"
| "lessThan x NaN = False"
| "lessThan (Num x) (Num y) = (x < y)"
| "lessThan (Num x) PosInfinity = True"
| "lessThan (Num x) NegInfinity = False"
| "lessThan PosInfinity y = False"
| "lessThan NegInfinity NegInfinity = False"
| "lessThan NegInfinity y = True"

subsection \<open>Rows and the store\<close>

record address =
  addr_pincode :: string
  addr_latitude :: "number option"
  addr_longitude :: "number option"

text \<open>A subscription row together with its address, as \<^verbatim>\<open>include: { address: true }\<close> returns it.\<close>

record subscription =
  sub_id :: string
  sub_customerId :: string
  sub_status :: string
  sub_frequency :: string
  sub_startDate :: date
  sub_pauseStart :: "date option"
  sub_pauseEnd :: "date option"
  sub_address :: address

record area =
  area_id :: string
  area_pincodes :: string

record deliveryBoy =
  boy_id :: string
  boy_areaId :: string
  boy_isActive :: bool

text \<open>Delivery ids come from the database; they are modelled as sequence numbers.\<close>

record delivery =
  del_id :: nat
  del_subscriptionId :: string
  del_deliveryBoyId :: "string option"
  del_deliveryDate :: date
  del_status :: string
  del_proofUrl :: "string option"
  del_proofType :: "string option"
  del_failureReason :: "string option"
  del_failureNotes :: "string option"
  del_completedAt :: "date option"

record store =
  subscriptions :: "subscription list"
  areas :: "area list"
  deliveryBoys :: "deliveryBoy list"
  deliveries :: "delivery list"

datatype errorKind = notFound | forbidden | badRequest

text \<open>
  \<open>ApiError k code\<close> is \<^verbatim>\<open>ApiError.k(code, message)\<close>, \<open>Error m\<close> is \<^verbatim>\<open>new Error(m)\<close> and
  \<open>TypeError\<close> is the run-time error of reading a property of \<^verbatim>\<open>null\<close>.
\<close>

datatype error = ApiError errorKind string | Error string | TypeError

subsection \<open>Obligation generator\<close>

definition shouldDeliverOnDate :: "zone \<Rightarrow> date \<Rightarrow> date \<Rightarrow> string \<Rightarrow> bool" where
  "shouldDeliverOnDate tz startDate targetDate frequency =
     (let start = setHours0 tz startDate;
          target = setHours0 tz targetDate
      in if target < start then False
         else let daysDiff = (target - start) div msPerDay;
                  f = toUpperCase frequency
              in if f = ''DAILY'' then True
                 else if f = ''ALTERNATE'' then daysDiff mod 2 = 0
                 else if f = ''WEEKLY'' then daysDiff mod 7 = 0
                 else False)"

definition isDateInPausePeriod :: "zone \<Rightarrow> date \<Rightarrow> date option \<Rightarrow> date option \<Rightarrow> bool" where
  "isDateInPausePeriod tz d pauseStart pauseEnd =
     (case (pauseStart, pauseEnd) of
        (Some ps, Some pe) \<Rightarrow>
          (let checkDate = setHours0 tz d; start = setHours0 tz ps; endDate = setHours0 tz pe
           in start \<le> checkDate \<and> checkDate \<le> endDate)
      | _ \<Rightarrow> False)"

text \<open>
  The relation filter \<^verbatim>\<open>area: { pincodes: { contains: pincode } }\<close> on a delivery boy: the
  area row the boy points to exists and its comma-joined pincode string has the pincode
  as a substring.
\<close>

definition areaContains :: "store \<Rightarrow> deliveryBoy \<Rightarrow> string \<Rightarrow> bool" where
  "areaContains st b pincode =
     (case find (\<lambda>a. area_id a = boy_areaId b) (areas st) of
        None \<Rightarrow> False
      | Some a \<Rightarrow> contains (area_pincodes a) pincode)"

definition createDelivery :: "string \<Rightarrow> string option \<Rightarrow> date \<Rightarrow> store \<Rightarrow> store" where
  "createDelivery subscriptionId boy targetDate st =
     st\<lparr>deliveries := deliveries st @
        [\<lparr>del_id = length (deliveries st), del_subscriptionId = subscriptionId,
          del_deliveryBoyId = boy, del_deliveryDate = targetDate,
          del_status = ''PENDING'', del_proofUrl = None, del_proofType = None,
          del_failureReason = None, del_failureNotes = None, del_completedAt = None\<rparr>]\<rparr>"

text \<open>The \<^verbatim>\<open>for\<close> loop over the subscriptions read at the start, threading the store.\<close>

fun generateLoop :: "zone \<Rightarrow> date \<Rightarrow> subscription list \<Rightarrow> store \<Rightarrow> nat \<Rightarrow> store \<times> nat" where
  "generateLoop tz targetDate [] st createdCount = (st, createdCount)"
| "generateLoop tz targetDate (s # ss) st createdCount =
     (if \<not> shouldDeliverOnDate tz (sub_startDate s) targetDate (sub_frequency s)
      then generateLoop tz targetDate ss st createdCount
      else if find (\<lambda>d. del_subscriptionId d = sub_id s \<and> del_deliveryDate d = targetDate)
                (deliveries st) \<noteq> None
      then generateLoop tz targetDate ss st createdCount
      else let deliveryBoy = find (\<lambda>b. boy_isActive b \<and>
                                        areaContains st b (addr_pincode (sub_address s)))
                               (deliveryBoys st)
           in generateLoop tz targetDate ss
                (createDelivery (sub_id s) (map_option boy_id deliveryBoy) targetDate st)
                (createdCount + 1))"

definition generateDeliveriesForDate :: "zone \<Rightarrow> date \<Rightarrow> store \<Rightarrow> store \<times> nat" where
  "generateDeliveriesForDate tz d st =
     (let targetDate = setHours0 tz d;
          subs = filter (\<lambda>s. sub_status s = ''ACTIVE'' \<and> sub_startDate s \<le> targetDate)
                   (subscriptions st)
      in generateLoop tz targetDate subs st 0)"

subsection \<open>Pausing a subscription, and the admin's status update\<close>

definition updateSubscriptionRow ::
  "string \<Rightarrow> (subscription \<Rightarrow> subscription) \<Rightarrow> store \<Rightarrow> store" where
  "updateSubscriptionRow subscriptionId f st =
     st\<lparr>subscriptions := map (\<lambda>s. if sub_id s = subscriptionId then f s else s)
                             (subscriptions st)\<rparr>"

text \<open>\<open>now\<close> is the value of \<^verbatim>\<open>new Date()\<close> at the call.\<close>

definition pauseSubscription ::
  "zone \<Rightarrow> date \<Rightarrow> string \<Rightarrow> string \<Rightarrow> date \<Rightarrow> date \<Rightarrow> store \<Rightarrow> error + store \<times> subscription" where
  "pauseSubscription tz now subscriptionId customerId pauseStartDate pauseEndDate st =
     (case find (\<lambda>s. sub_id s = subscriptionId \<and> sub_customerId s = customerId)
             (subscriptions st) of
        None \<Rightarrow> Inl (ApiError notFound ''SUB_005'')
      | Some subscription \<Rightarrow>
          if sub_status subscription = ''CANCELLED'' then Inl (ApiError badRequest ''SUB_008'')
          else if sub_status subscription = ''PAUSED'' then Inl (ApiError badRequest ''SUB_009'')
          else let startDate = setHours0 tz pauseStartDate;
                   endDate = setHours0 tz pauseEndDate
               in if endDate \<le> startDate then Inl (ApiError badRequest ''SUB_004'')
                  else if startDate < setHours0 tz now then Inl (ApiError badRequest ''SUB_010'')
                  else let upd = (\<lambda>s. s\<lparr>sub_status := ''PAUSED'',
                                            sub_pauseStart := Some startDate,
                                            sub_pauseEnd := Some endDate\<rparr>)
                       in Inr (updateSubscriptionRow subscriptionId upd st, upd subscription))"

text \<open>
  \<^verbatim>\<open>adminService.updateCustomerSubscription\<close>: the spreads
  \<^verbatim>\<open>...(data.frequency && { frequency: data.frequency })\<close> and
  \<^verbatim>\<open>...(data.status && { status: data.status })\<close> write a field when the given string is
  present and not empty; the pause window is not written.
\<close>

definition updateCustomerSubscription ::
  "string \<Rightarrow> string \<Rightarrow> string option \<Rightarrow> string option \<Rightarrow> store \<Rightarrow> error + store \<times> subscription" where
  "updateCustomerSubscription customerId subscriptionId dataFrequency dataStatus st =
     (case find (\<lambda>s. sub_id s = subscriptionId \<and> sub_customerId s = customerId)
             (subscriptions st) of
        None \<Rightarrow> Inl (Error ''Subscription not found'')
      | Some subscription \<Rightarrow>
          let upd = (\<lambda>s.
                 let s1 = (case dataFrequency of
                             Some f \<Rightarrow> if f \<noteq> [] then s\<lparr>sub_frequency := f\<rparr> else s
                           | None \<Rightarrow> s)
                 in (case dataStatus of
                       Some v \<Rightarrow> if v \<noteq> [] then s1\<lparr>sub_status := v\<rparr> else s1
                     | None \<Rightarrow> s1))
          in Inr (updateSubscriptionRow subscriptionId upd st, upd subscription))"

subsection \<open>Obligation lifecycle\<close>

record DeliveryProof =
  proof_type :: string
  proof_url :: string
  proof_capturedAt :: date

record FailureReason =
  reason_code :: string
  reason_description :: string
  reason_notes :: "string option"

text \<open>The own properties of the object literal \<^verbatim>\<open>FAILURE_REASONS\<close>.\<close>

definition FAILURE_REASONS :: "(string \<times> string) list" where
  "FAILURE_REASONS =
     [(''CUSTOMER_UNAVAILABLE'', ''Customer was not available''),
      (''WRONG_ADDRESS'', ''Address was incorrect or not found''),
      (''CUSTOMER_REFUSED'', ''Customer refused delivery''),
      (''ACCESS_DENIED'', ''Could not access the location''),
      (''WEATHER_CONDITIONS'', ''Delivery not possible due to weather''),
      (''VEHICLE_BREAKDOWN'', ''Delivery vehicle breakdown''),
      (''OTHER'', ''Other reason'')]"

text \<open>
  \<^verbatim>\<open>FAILURE_REASONS\<close> is a plain object, so its prototype is \<^verbatim>\<open>Object.prototype\<close>, and a
  property read \<^verbatim>\<open>FAILURE_REASONS[code]\<close> that finds no own property continues there.
  These are the property names of \<^verbatim>\<open>Object.prototype\<close>; each holds a function or an
  object, which is truthy.
\<close>

definition objectPrototypeKeys :: "string list" where
  "objectPrototypeKeys =
     [''constructor'', ''hasOwnProperty'', ''isPrototypeOf'', ''propertyIsEnumerable'',
      ''toLocaleString'', ''toString'', ''valueOf'', ''__proto__'',
      ''__defineGetter__'', ''__defineSetter__'', ''__lookupGetter__'', ''__lookupSetter__'']"

text \<open>The truthiness of \<^verbatim>\<open>FAILURE_REASONS[code]\<close>.\<close>

definition failureReasonsHas :: "string \<Rightarrow> bool" where
  "failureReasonsHas code =
     (case map_of FAILURE_REASONS code of
        Some description \<Rightarrow> description \<noteq> []
      | None \<Rightarrow> code \<in> set objectPrototypeKeys)"

text \<open>\<^verbatim>\<open>prisma.delivery.update({ where: { id }, data })\<close>.\<close>

definition updateDelivery :: "nat \<Rightarrow> (delivery \<Rightarrow> delivery) \<Rightarrow> store \<Rightarrow> store" where
  "updateDelivery deliveryId f st =
     st\<lparr>deliveries := map (\<lambda>d. if del_id d = deliveryId then f d else d) (deliveries st)\<rparr>"

text \<open>
  The three transitions return the new store and the updated row.  The notification
  sent afterwards is fire-and-forget and writes nothing to the store.
\<close>

definition markDeliveryCompleted ::
  "date \<Rightarrow> nat \<Rightarrow> string \<Rightarrow> DeliveryProof option \<Rightarrow> store \<Rightarrow> error + store \<times> delivery" where
  "markDeliveryCompleted now deliveryId deliveryBoyId proof st =
     (case find (\<lambda>d. del_id d = deliveryId) (deliveries st) of
        None \<Rightarrow> Inl (ApiError notFound ''DEL_001'')
      | Some delivery \<Rightarrow>
          if del_deliveryBoyId delivery \<noteq> Some deliveryBoyId
          then Inl (ApiError forbidden ''DEL_005'')
          else if del_status delivery = ''DELIVERED''
          then Inl (ApiError badRequest ''DEL_002'')
          else (case proof of
                  None \<Rightarrow> Inl (ApiError badRequest ''DEL_003'')
                | Some p \<Rightarrow>
                    if proof_url p = [] then Inl (ApiError badRequest ''DEL_003'')
                    else let upd = (\<lambda>d. d\<lparr>del_status := ''DELIVERED'',
                                              del_proofUrl := Some (proof_url p),
                                              del_proofType := Some (proof_type p),
                                              del_completedAt := Some now\<rparr>)
                         in Inr (updateDelivery deliveryId upd st, upd delivery)))"

definition markDeliveryFailed ::
  "date \<Rightarrow> nat \<Rightarrow> string \<Rightarrow> FailureReason option \<Rightarrow> store \<Rightarrow> error + store \<times> delivery" where
  "markDeliveryFailed now deliveryId deliveryBoyId reason st =
     (case find (\<lambda>d. del_id d = deliveryId) (deliveries st) of
        None \<Rightarrow> Inl (ApiError notFound ''DEL_001'')
      | Some delivery \<Rightarrow>
          if del_deliveryBoyId delivery \<noteq> Some deliveryBoyId
          then Inl (ApiError forbidden ''DEL_005'')
          else if del_status delivery = ''DELIVERED'' \<or> del_status delivery = ''FAILED''
          then Inl (ApiError badRequest ''DEL_006'')
          else (case reason of
                  None \<Rightarrow> Inl (ApiError badRequest ''DEL_004'')
                | Some r \<Rightarrow>
                    if reason_code r = [] then Inl (ApiError badRequest ''DEL_004'')
                    else if \<not> failureReasonsHas (reason_code r)
                    then Inl (ApiError badRequest ''DEL_007'')
                    else let upd = (\<lambda>d. d\<lparr>del_status := ''FAILED'',
                                              del_failureReason := Some (reason_code r),
                                              del_failureNotes := reason_notes r,
                                              del_completedAt := Some now\<rparr>)
                         in Inr (updateDelivery deliveryId upd st, upd delivery)))"

definition startDelivery :: "nat \<Rightarrow> string \<Rightarrow> store \<Rightarrow> error + store \<times> delivery" where
  "startDelivery deliveryId deliveryBoyId st =
     (case find (\<lambda>d. del_id d = deliveryId) (deliveries st) of
        None \<Rightarrow> Inl (ApiError notFound ''DEL_001'')
      | Some delivery \<Rightarrow>
          if del_deliveryBoyId delivery \<noteq> Some deliveryBoyId
          then Inl (ApiError forbidden ''DEL_005'')
          else if del_status delivery \<noteq> ''PENDING''
          then Inl (ApiError badRequest ''DEL_008'')
          else let upd = (\<lambda>d. d\<lparr>del_status := ''IN_PROGRESS''\<rparr>)
               in Inr (updateDelivery deliveryId upd st, upd delivery))"

subsection \<open>Coverage registry and assignment resolver\<close>

text \<open>\<^verbatim>\<open>Array.prototype.join\<close> with a one-character separator.\<close>

fun joinWith :: "char \<Rightarrow> string list \<Rightarrow> string" where
  "joinWith sep [] = []"
| "joinWith sep [x] = x"
| "joinWith sep (x # y # ys) = x @ sep # joinWith sep (y # ys)"

text \<open>\<open>newId\<close> is the id the database gives the new row.\<close>

definition createArea :: "string \<Rightarrow> string list \<Rightarrow> store \<Rightarrow> store \<times> area" where
  "createArea newId dataPincodes st =
     (let a = \<lparr>area_id = newId, area_pincodes = joinWith CHR '','' dataPincodes\<rparr>
      in (st\<lparr>areas := areas st @ [a]\<rparr>, a))"

text \<open>The postal-code list of an area, as \<^verbatim>\<open>transformArea\<close> exposes it.\<close>

definition transformAreaPincodes :: "area \<Rightarrow> string list" where
  "transformAreaPincodes a =
     (if area_pincodes a \<noteq> [] then map trim (split CHR '','' (area_pincodes a)) else [])"

definition findDeliveryBoyForPincode :: "string \<Rightarrow> store \<Rightarrow> deliveryBoy option" where
  "findDeliveryBoyForPincode pincode st =
     find (\<lambda>b. boy_isActive b \<and> areaContains st b pincode) (deliveryBoys st)"

subsection \<open>Reassignment cascade\<close>

text \<open>
  \<^verbatim>\<open>d.subscription.address.pincode\<close> of a delivery read with
  \<^verbatim>\<open>include: { subscription: { include: { address: true } } }\<close>; \<open>None\<close> when the
  subscription row is missing, where the property read throws.
\<close>

definition joinPincode :: "store \<Rightarrow> delivery \<Rightarrow> string option" where
  "joinPincode st d =
     map_option (\<lambda>s. addr_pincode (sub_address s))
       (find (\<lambda>s. sub_id s = del_subscriptionId d) (subscriptions st))"

fun reassignLoop :: "string \<Rightarrow> (delivery \<times> string) list \<Rightarrow> store \<Rightarrow> nat \<Rightarrow> store \<times> nat" where
  "reassignLoop deliveryBoyId [] st reassignedCount = (st, reassignedCount)"
| "reassignLoop deliveryBoyId ((delivery, addressPincode) # rest) st reassignedCount =
     (case find (\<lambda>b. boy_id b \<noteq> deliveryBoyId \<and> boy_isActive b \<and>
                      areaContains st b addressPincode) (deliveryBoys st) of
        Some coveringDeliveryBoy \<Rightarrow>
          reassignLoop deliveryBoyId rest
            (updateDelivery (del_id delivery)
               (\<lambda>d. d\<lparr>del_deliveryBoyId := Some (boy_id coveringDeliveryBoy)\<rparr>) st)
            (reassignedCount + 1)
      | None \<Rightarrow>
          reassignLoop deliveryBoyId rest
            (updateDelivery (del_id delivery) (\<lambda>d. d\<lparr>del_deliveryBoyId := None\<rparr>) st)
            (reassignedCount + 1))"

definition reassignDeliveryBoyArea ::
  "string \<Rightarrow> string \<Rightarrow> store \<Rightarrow> error + store \<times> deliveryBoy \<times> nat" where
  "reassignDeliveryBoyArea deliveryBoyId newAreaId st =
     (case find (\<lambda>b. boy_id b = deliveryBoyId) (deliveryBoys st) of
        None \<Rightarrow> Inl (ApiError notFound ''DBOY_001'')
      | Some existing \<Rightarrow>
          (case find (\<lambda>a. area_id a = newAreaId) (areas st) of
             None \<Rightarrow> Inl (ApiError badRequest ''DBOY_002'')
           | Some newArea \<Rightarrow>
               if boy_areaId existing = newAreaId then Inr (st, existing, 0)
               else
                 let pendingDeliveries =
                       filter (\<lambda>d. del_deliveryBoyId d = Some deliveryBoyId \<and>
                                    del_status d = ''PENDING'') (deliveries st);
                     newAreaPincodes = map trim (split CHR '','' (area_pincodes newArea))
                 in (case those (map (\<lambda>d. map_option (Pair d) (joinPincode st d))
                                  pendingDeliveries) of
                       None \<Rightarrow> Inl TypeError
                     | Some joined \<Rightarrow>
                         let deliveriesToReassign =
                               filter (\<lambda>(d, pincode). \<not> includesStr newAreaPincodes pincode)
                                 joined;
                             (st1, reassignedCount) =
                               reassignLoop deliveryBoyId deliveriesToReassign st 0;
                             st2 = st1\<lparr>deliveryBoys :=
                                     map (\<lambda>b. if boy_id b = deliveryBoyId
                                               then b\<lparr>boy_areaId := newAreaId\<rparr> else b)
                                       (deliveryBoys st1)\<rparr>
                         in Inr (st2, existing\<lparr>boy_areaId := newAreaId\<rparr>, reassignedCount))))"

text \<open>
  The id the loop writes for an address pincode: that of the first active delivery boy
  other than \<open>deliveryBoyId\<close> that the \<^verbatim>\<open>contains\<close> filter matches, or \<^verbatim>\<open>null\<close>.
\<close>

definition coveringDeliveryBoyId :: "store \<Rightarrow> string \<Rightarrow> string \<Rightarrow> string option" where
  "coveringDeliveryBoyId st deliveryBoyId addressPincode =
     map_option boy_id
       (find (\<lambda>b. boy_id b \<noteq> deliveryBoyId \<and> boy_isActive b \<and>
                   areaContains st b addressPincode) (deliveryBoys st))"

text \<open>
  What the cascade does to one row of the delivery table, for the pincode list of the
  new area: a pending delivery of the delivery boy whose address pincode is not in the
  list gets the id found by the loop's query, every other row stays.
\<close>

definition cascadeRow :: "store \<Rightarrow> string \<Rightarrow> string list \<Rightarrow> delivery \<Rightarrow> delivery" where
  "cascadeRow st deliveryBoyId newAreaPincodes d =
     (if del_deliveryBoyId d = Some deliveryBoyId \<and> del_status d = ''PENDING''
      then (case joinPincode st d of
              Some p \<Rightarrow>
                if \<not> includesStr newAreaPincodes p
                then d\<lparr>del_deliveryBoyId := coveringDeliveryBoyId st deliveryBoyId p\<rparr> else d
            | None \<Rightarrow> d)
      else d)"

subsection \<open>Route optimizer\<close>

record coordinates =
  lat :: number
  lng :: number

text \<open>The shared \<^verbatim>\<open>Delivery\<close> type, with the fields the optimizer and its callers read.\<close>

record Delivery =
  dv_id :: nat
  dv_pincode :: string
  dv_coordinates :: "coordinates option"
  dv_status :: string

text \<open>
  The \<^verbatim>\<open>coordinates\<close> field built by \<^verbatim>\<open>transformDelivery\<close>:
  \<^verbatim>\<open>latitude && longitude ? { lat: latitude, lng: longitude } : undefined\<close>.
\<close>

definition transformCoordinates :: "address \<Rightarrow> coordinates option" where
  "transformCoordinates a =
     (case (addr_latitude a, addr_longitude a) of
        (Some la, Some lo) \<Rightarrow>
          if truthy la \<and> truthy lo then Some \<lparr>lat = la, lng = lo\<rparr> else None
      | _ \<Rightarrow> None)"

text \<open>
  The two filter predicates of \<^verbatim>\<open>optimizeRoute\<close>:
  \<^verbatim>\<open>d.address.coordinates?.lat && d.address.coordinates?.lng\<close> and
  \<^verbatim>\<open>!d.address.coordinates?.lat || !d.address.coordinates?.lng\<close>.
\<close>

definition withCoordsPred :: "Delivery \<Rightarrow> bool" where
  "withCoordsPred d =
     (case dv_coordinates d of None \<Rightarrow> False | Some c \<Rightarrow> truthy (lat c) \<and> truthy (lng c))"

definition withoutCoordsPred :: "Delivery \<Rightarrow> bool" where
  "withoutCoordsPred d =
     (case dv_coordinates d of None \<Rightarrow> True | Some c \<Rightarrow> \<not> truthy (lat c) \<or> \<not> truthy (lng c))"

text \<open>
  \<^verbatim>\<open>calculateDistance\<close> is floating-point trigonometry; it is the parameter \<open>cd\<close>, an
  arbitrary function of the four coordinates, and so is the floating-point addition
  \<open>add\<close> of \<^verbatim>\<open>calculateTotalDistance\<close>.
\<close>

type_synonym distanceFn = "number \<Rightarrow> number \<Rightarrow> number \<Rightarrow> number \<Rightarrow> number"

fun totalLoop :: "distanceFn \<Rightarrow> (number \<Rightarrow> number \<Rightarrow> number) \<Rightarrow> Delivery \<Rightarrow> Delivery list \<Rightarrow> number \<Rightarrow> number" where
  "totalLoop cd add prev [] totalDistance = totalDistance"
| "totalLoop cd add prev (current # rest) totalDistance =
     totalLoop cd add current rest
       (case (dv_coordinates prev, dv_coordinates current) of
          (Some p, Some c) \<Rightarrow> add totalDistance (cd (lat p) (lng p) (lat c) (lng c))
        | _ \<Rightarrow> add totalDistance (Num 1))"

definition calculateTotalDistance ::
  "distanceFn \<Rightarrow> (number \<Rightarrow> number \<Rightarrow> number) \<Rightarrow> Delivery list \<Rightarrow> number" where
  "calculateTotalDistance cd add ds =
     (if length ds < 2 then Num 0
      else (case ds of [] \<Rightarrow> Num 0 | first # rest \<Rightarrow> totalLoop cd add first rest (Num 0)))"

text \<open>
  The inner \<^verbatim>\<open>for\<close> loop: \<open>i\<close> is the index, the pair is \<^verbatim>\<open>(nearestIdx, nearestDist)\<close>.
  \<open>None\<close> is the \<^verbatim>\<open>TypeError\<close> of \<^verbatim>\<open>coordinates!.lat\<close> on a delivery without coordinates.
\<close>

fun nearestScan ::
  "distanceFn \<Rightarrow> coordinates \<Rightarrow> Delivery list \<Rightarrow> nat \<Rightarrow> nat \<times> number \<Rightarrow> (nat \<times> number) option" where
  "nearestScan cd lastC [] i best = Some best"
| "nearestScan cd lastC (r # rs) i (nearestIdx, nearestDist) =
     (case dv_coordinates r of
        None \<Rightarrow> None
      | Some c \<Rightarrow>
          let dist = cd (lat lastC) (lng lastC) (lat c) (lng c)
          in if lessThan dist nearestDist then nearestScan cd lastC rs (i + 1) (i, dist)
             else nearestScan cd lastC rs (i + 1) (nearestIdx, nearestDist))"

text \<open>
  The \<^verbatim>\<open>while (remaining.length > 0)\<close> loop; \<^verbatim>\<open>remaining.splice(nearestIdx, 1)[0]\<close> takes
  the element at \<open>nearestIdx\<close> out of \<open>remaining\<close>.
\<close>

function nearestNeighbour ::
  "distanceFn \<Rightarrow> Delivery list \<Rightarrow> Delivery list \<Rightarrow> Delivery list option" where
  "nearestNeighbour cd optimized remaining =
     (if remaining = [] then Some optimized
      else (case rev optimized of
              [] \<Rightarrow> None
            | l # _ \<Rightarrow>
                (case dv_coordinates l of
                   None \<Rightarrow> None
                 | Some lastC \<Rightarrow>
                     (case nearestScan cd lastC remaining 0 (0, PosInfinity) of
                        None \<Rightarrow> None
                      | Some (nearestIdx, nearestDist) \<Rightarrow>
                          if nearestIdx < length remaining
                          then nearestNeighbour cd (optimized @ [remaining ! nearestIdx])
                                 (take nearestIdx remaining @ drop (Suc nearestIdx) remaining)
                          else None))))"
  by pat_completeness auto
termination
  by (relation "measure (\<lambda>(cd, optimized, remaining). length remaining)") auto

definition optimizeRoute :: "distanceFn \<Rightarrow> Delivery list \<Rightarrow> Delivery list option" where
  "optimizeRoute cd ds =
     (if length ds \<le> 1 then Some ds
      else let withCoords = filter withCoordsPred ds;
               withoutCoords = filter withoutCoordsPred ds
           in if length withCoords \<le> 1 then Some (withCoords @ withoutCoords)
              else (case withCoords of
                      [] \<Rightarrow> None
                    | first # remaining \<Rightarrow>
                        map_option (\<lambda>optimized. optimized @ withoutCoords)
                          (nearestNeighbour cd [first] remaining)))"

subsection \<open>Example stores\<close>

text \<open>
  One subscription started 2024-01-01 (time value \<open>1704067200000\<close>, midnight UTC), no
  areas, no delivery boys, no deliveries.
\<close>

definition exampleAddress :: address where
  "exampleAddress = \<lparr>addr_pincode = ''110003'', addr_latitude = None, addr_longitude = None\<rparr>"

definition alternateSub :: subscription where
  "alternateSub =
     \<lparr>sub_id = ''S1'', sub_customerId = ''C1'', sub_status = ''ACTIVE'',
      sub_frequency = ''ALTERNATE'', sub_startDate = 1704067200000,
      sub_pauseStart = None, sub_pauseEnd = None, sub_address = exampleAddress\<rparr>"

definition alternateStore :: store where
  "alternateStore =
     \<lparr>subscriptions = [alternateSub], areas = [], deliveryBoys = [], deliveries = []\<rparr>"

definition pendingDelivery :: "nat \<Rightarrow> string \<Rightarrow> string option \<Rightarrow> date \<Rightarrow> delivery" where
  "pendingDelivery i subscriptionId boy targetDate =
     \<lparr>del_id = i, del_subscriptionId = subscriptionId, del_deliveryBoyId = boy,
      del_deliveryDate = targetDate, del_status = ''PENDING'', del_proofUrl = None,
      del_proofType = None, del_failureReason = None, del_failureNotes = None,
      del_completedAt = None\<rparr>"

text \<open>
  A daily subscription, the same subscription after \<^const>\<open>pauseSubscription\<close> for
  2024-01-05 to 2024-01-10, and after the admin has set its status back to
  \<^verbatim>\<open>ACTIVE\<close> with \<^const>\<open>updateCustomerSubscription\<close>.
\<close>

definition dailySub :: subscription where
  "dailySub = alternateSub\<lparr>sub_frequency := ''DAILY''\<rparr>"

definition pausedSub :: subscription where
  "pausedSub = dailySub\<lparr>sub_status := ''PAUSED'', sub_pauseStart := Some 1704412800000,
                         sub_pauseEnd := Some 1704844800000\<rparr>"

definition reactivatedSub :: subscription where
  "reactivatedSub = pausedSub\<lparr>sub_status := ''ACTIVE''\<rparr>"

text \<open>The every-other-day subscription with its start stored as 2024-01-01 10:00 UTC.\<close>

definition lateStartSub :: subscription where
  "lateStartSub = alternateSub\<lparr>sub_startDate := 1704103200000\<rparr>"

definition storeOf :: "subscription \<Rightarrow> store" where
  "storeOf s = \<lparr>subscriptions = [s], areas = [], deliveryBoys = [], deliveries = []\<rparr>"

text \<open>
  One pending delivery of subscription \<open>S1\<close> assigned to delivery boy \<open>B1\<close>, the same
  delivery after \<^const>\<open>markDeliveryFailed\<close> with reason \<^verbatim>\<open>OTHER\<close> at time \<open>1704090000000\<close>,
  and after a following \<^const>\<open>markDeliveryCompleted\<close> at time \<open>1704093600000\<close>.
\<close>

definition lifecycleStore :: store where
  "lifecycleStore =
     alternateStore\<lparr>deliveries := [pendingDelivery 0 ''S1'' (Some ''B1'') 1704067200000]\<rparr>"

definition failedDelivery :: delivery where
  "failedDelivery =
     (pendingDelivery 0 ''S1'' (Some ''B1'') 1704067200000)
       \<lparr>del_status := ''FAILED'', del_failureReason := Some ''OTHER'',
        del_failureNotes := None, del_completedAt := Some 1704090000000\<rparr>"

definition completedAfterFailure :: delivery where
  "completedAfterFailure =
     failedDelivery\<lparr>del_status := ''DELIVERED'', del_proofUrl := Some ''https://cdn.example/p.jpg'',
                    del_proofType := Some ''photo'', del_completedAt := Some 1704093600000\<rparr>"

definition exampleProof :: DeliveryProof where
  "exampleProof = \<lparr>proof_type = ''photo'', proof_url = ''https://cdn.example/p.jpg'',
                    proof_capturedAt = 1704093600000\<rparr>"

definition reasonWithCode :: "string \<Rightarrow> FailureReason" where
  "reasonWithCode c = \<lparr>reason_code = c, reason_description = [], reason_notes = None\<rparr>"

text \<open>
  Five stops for the route examples: three with coordinates, one without, and one on
  the equator (latitude 0).  \<open>flatDistance\<close> stands in for \<^verbatim>\<open>calculateDistance\<close> where
  an example is evaluated.
\<close>

definition stop :: "nat \<Rightarrow> coordinates option \<Rightarrow> Delivery" where
  "stop i c = \<lparr>dv_id = i, dv_pincode = ''110003'', dv_coordinates = c, dv_status = ''pending''\<rparr>"

definition exampleStops :: "Delivery list" where
  "exampleStops =
     [stop 0 (Some \<lparr>lat = Num 28.6, lng = Num 77.2\<rparr>),
      stop 1 None,
      stop 2 (Some \<lparr>lat = Num 0, lng = Num 77\<rparr>),
      stop 3 (Some \<lparr>lat = Num 28.7, lng = Num 77.3\<rparr>),
      stop 4 (Some \<lparr>lat = Num 28.61, lng = Num 77.21\<rparr>)]"

fun flatDistance :: distanceFn where
  "flatDistance (Num x1) (Num y1) (Num x2) (Num y2) = Num (\<bar>x2 - x1\<bar> + \<bar>y2 - y1\<bar>)"
| "flatDistance a b c d = NaN"

text \<open>
  The cascade scenario: delivery boy \<open>BA\<close> covers 110001, delivery boy \<open>BB\<close> covers 110003,
  area \<open>A3\<close> is 110005, and the pending delivery of \<open>S1\<close> (address pincode 110003) is
  assigned to \<open>BA\<close>.
\<close>

definition areaA :: area where
  "areaA = \<lparr>area_id = ''A1'', area_pincodes = ''110001''\<rparr>"

definition areaB :: area where
  "areaB = \<lparr>area_id = ''A2'', area_pincodes = ''110003''\<rparr>"

definition areaC :: area where
  "areaC = \<lparr>area_id = ''A3'', area_pincodes = ''110005''\<rparr>"

definition boyA :: deliveryBoy where
  "boyA = \<lparr>boy_id = ''BA'', boy_areaId = ''A1'', boy_isActive = True\<rparr>"

definition boyB :: deliveryBoy where
  "boyB = \<lparr>boy_id = ''BB'', boy_areaId = ''A2'', boy_isActive = True\<rparr>"

definition cascadeStore :: store where
  "cascadeStore =
     \<lparr>subscriptions = [alternateSub], areas = [areaA, areaB, areaC],
      deliveryBoys = [boyA, boyB],
      deliveries = [pendingDelivery 0 ''S1'' (Some ''BA'') 1704067200000]\<rparr>"

text \<open>One area made by \<^const>\<open>createArea\<close> from the codes 110001 and 110002, and its delivery boy.\<close>

definition seedArea :: area where
  "seedArea = \<lparr>area_id = ''A1'', area_pincodes = ''110001,110002''\<rparr>"

definition seedStore :: store where
  "seedStore = \<lparr>subscriptions = [], areas = [seedArea], deliveryBoys = [boyA], deliveries = []\<rparr>"

text \<open>The cascade scenario after \<open>BA\<close> has been moved to area \<open>A3\<close>.\<close>

definition cascadeStoreAfter :: store where
  "cascadeStoreAfter =
     cascadeStore\<lparr>deliveryBoys := [boyA\<lparr>boy_areaId := ''A3''\<rparr>, boyB],
                   deliveries := [pendingDelivery 0 ''S1'' (Some ''BB'') 1704067200000]\<rparr>"

section \<open>Verification\<close>

subsection \<open>Dates and the recurrence rule\<close>

lemma toUpperCase_literals:
  "toUpperCase ''DAILY'' = ''DAILY''"
  "toUpperCase ''ALTERNATE'' = ''ALTERNATE''"
  "toUpperCase ''WEEKLY'' = ''WEEKLY''"
  "toUpperCase ''daily'' = ''DAILY''"
  "toUpperCase ''alternate'' = ''ALTERNATE''"
  "toUpperCase ''weekly'' = ''WEEKLY''"
  by code_simp+

declare toUpperCase.simps [simp del]

lemma msPerDay_pos: "0 < msPerDay"
  by (simp add: msPerDay_def)

text \<open>
  In a zone with one offset all year the local midnights are whole days apart, and the
  predicate is the recurrence rule on calendar days.
\<close>

lemma setHours0_dayNumber:
  "setHours0 (fixedZone tz) t = dayNumber (fixedZone tz) t * msPerDay - tz"
  unfolding setHours0_def dayNumber_def fixedZone_def
  by (simp add: minus_mod_eq_div_mult [symmetric] algebra_simps)

lemma setHours0_less:
  "setHours0 (fixedZone tz) a < setHours0 (fixedZone tz) b \<longleftrightarrow>
   dayNumber (fixedZone tz) a < dayNumber (fixedZone tz) b"
  using msPerDay_pos by (simp add: setHours0_dayNumber)

lemma setHours0_diff_div:
  "(setHours0 (fixedZone tz) b - setHours0 (fixedZone tz) a) div msPerDay =
   dayNumber (fixedZone tz) b - dayNumber (fixedZone tz) a"
  using msPerDay_pos by (simp add: setHours0_dayNumber left_diff_distrib [symmetric])

lemma shouldDeliverOnDate_fixedZone:
  "shouldDeliverOnDate (fixedZone tz) startDate targetDate frequency =
     (dayNumber (fixedZone tz) startDate \<le> dayNumber (fixedZone tz) targetDate \<and>
      (toUpperCase frequency = ''DAILY'' \<or>
       toUpperCase frequency = ''ALTERNATE'' \<and>
         even (dayNumber (fixedZone tz) targetDate - dayNumber (fixedZone tz) startDate) \<or>
       toUpperCase frequency = ''WEEKLY'' \<and>
         (dayNumber (fixedZone tz) targetDate - dayNumber (fixedZone tz) startDate) mod 7 = 0))"
  unfolding shouldDeliverOnDate_def Let_def
  by (auto simp: setHours0_less setHours0_diff_div even_iff_mod_2_eq_zero)

subsection \<open>The generator loop\<close>

lemma createDelivery_frame [simp]:
  "subscriptions (createDelivery sid b t st) = subscriptions st"
  "areas (createDelivery sid b t st) = areas st"
  "deliveryBoys (createDelivery sid b t st) = deliveryBoys st"
  by (simp_all add: createDelivery_def)

lemma generateLoop_frame:
  "subscriptions (fst (generateLoop tz t ss st n)) = subscriptions st \<and>
   areas (fst (generateLoop tz t ss st n)) = areas st \<and>
   deliveryBoys (fst (generateLoop tz t ss st n)) = deliveryBoys st"
  by (induction ss arbitrary: st n) (simp_all add: Let_def)

lemma generateLoop_grows:
  "set (deliveries st) \<subseteq> set (deliveries (fst (generateLoop tz t ss st n)))"
proof (induction ss arbitrary: st n)
  case Nil
  show ?case by simp
next
  case (Cons s ss)
  have "set (deliveries st) \<subseteq> set (deliveries (createDelivery sid b t st))" for sid b
    by (auto simp: createDelivery_def)
  with Cons.IH show ?case
    by (fastforce simp: Let_def)
qed

text \<open>After the loop every subscription it visited that is due has a delivery for the day.\<close>

lemma generateLoop_covered:
  assumes "s \<in> set ss" and "shouldDeliverOnDate tz (sub_startDate s) t (sub_frequency s)"
  shows "\<exists>x\<in>set (deliveries (fst (generateLoop tz t ss st n))).
           del_subscriptionId x = sub_id s \<and> del_deliveryDate x = t"
  using assms
proof (induction ss arbitrary: st n)
  case Nil
  then show ?case by simp
next
  case (Cons a ss)
  show ?case
  proof (cases "s = a")
    case True
    let ?P = "\<lambda>d. del_subscriptionId d = sub_id a \<and> del_deliveryDate d = t"
    show ?thesis
    proof (cases "find ?P (deliveries st) \<noteq> None")
      case ex: True
      then obtain x where "x \<in> set (deliveries st)" "?P x"
        unfolding find_None_iff by blast
      moreover have "set (deliveries st) \<subseteq> set (deliveries (fst (generateLoop tz t ss st n)))"
        by (rule generateLoop_grows)
      ultimately show ?thesis using ex True Cons.prems(2) by auto
    next
      case nex: False
      define st1 where "st1 = createDelivery (sub_id a)
          (map_option boy_id (find (\<lambda>b. boy_isActive b \<and>
             areaContains st b (addr_pincode (sub_address a))) (deliveryBoys st))) t st"
      have "\<exists>x\<in>set (deliveries st1). ?P x"
        by (simp add: st1_def createDelivery_def)
      moreover have
        "set (deliveries st1) \<subseteq> set (deliveries (fst (generateLoop tz t ss st1 (n + 1))))"
        by (rule generateLoop_grows)
      ultimately show ?thesis using nex True Cons.prems(2)
        by (auto simp: Let_def st1_def)
    qed
  next
    case False
    with Cons.prems have "s \<in> set ss" by simp
    from Cons.IH [OF this Cons.prems(2)] show ?thesis
      by (simp add: Let_def)
  qed
qed

text \<open>When every due subscription already has its delivery, the loop writes nothing.\<close>

lemma generateLoop_noop:
  assumes "\<forall>s\<in>set ss. shouldDeliverOnDate tz (sub_startDate s) t (sub_frequency s) \<longrightarrow>
             (\<exists>x\<in>set (deliveries st). del_subscriptionId x = sub_id s \<and> del_deliveryDate x = t)"
  shows "generateLoop tz t ss st n = (st, n)"
  using assms
  by (induction ss) (auto simp: find_None_iff)

lemma generateLoop_no_second:
  assumes "\<exists>x\<in>set (deliveries st). del_subscriptionId x = sid \<and> del_deliveryDate x = t"
  shows "filter (\<lambda>x. del_subscriptionId x = sid)
           (deliveries (fst (generateLoop tz t ss st n))) =
         filter (\<lambda>x. del_subscriptionId x = sid) (deliveries st)"
  using assms
proof (induction ss arbitrary: st n)
  case Nil
  show ?case by simp
next
  case (Cons a ss)
  let ?P = "\<lambda>d. del_subscriptionId d = sub_id a \<and> del_deliveryDate d = t"
  show ?case
  proof (cases "shouldDeliverOnDate tz (sub_startDate a) t (sub_frequency a) \<and>
                find ?P (deliveries st) = None")
    case False
    then show ?thesis using Cons.IH [OF Cons.prems] by auto
  next
    case True
    then have ne: "sub_id a \<noteq> sid" using Cons.prems by (auto simp: find_None_iff)
    define st1 where "st1 = createDelivery (sub_id a)
          (map_option boy_id (find (\<lambda>b. boy_isActive b \<and>
             areaContains st b (addr_pincode (sub_address a))) (deliveryBoys st))) t st"
    have ex1: "\<exists>x\<in>set (deliveries st1). del_subscriptionId x = sid \<and> del_deliveryDate x = t"
      using Cons.prems by (auto simp: st1_def createDelivery_def)
    have "filter (\<lambda>x. del_subscriptionId x = sid) (deliveries st1) =
          filter (\<lambda>x. del_subscriptionId x = sid) (deliveries st)"
      using ne by (simp add: st1_def createDelivery_def)
    with Cons.IH [OF ex1, of "n + 1"] True show ?thesis
      by (simp add: Let_def st1_def)
  qed
qed

lemma generate_twice:
  assumes "setHours0 tz d' = setHours0 tz d"
  shows "generateDeliveriesForDate tz d' (fst (generateDeliveriesForDate tz d st)) =
           (fst (generateDeliveriesForDate tz d st), 0)"
proof -
  define t where "t = setHours0 tz d"
  define subs where
    "subs = filter (\<lambda>s. sub_status s = ''ACTIVE'' \<and> sub_startDate s \<le> t) (subscriptions st)"
  define st' where "st' = fst (generateLoop tz t subs st 0)"
  have g: "fst (generateDeliveriesForDate tz d st) = st'"
    by (simp add: generateDeliveriesForDate_def Let_def t_def subs_def st'_def)
  have fr: "subscriptions st' = subscriptions st"
    unfolding st'_def using generateLoop_frame by blast
  have "generateLoop tz t subs st' 0 = (st', 0)"
  proof (rule generateLoop_noop, intro ballI impI)
    fix s assume "s \<in> set subs" "shouldDeliverOnDate tz (sub_startDate s) t (sub_frequency s)"
    then show "\<exists>x\<in>set (deliveries st'). del_subscriptionId x = sub_id s \<and> del_deliveryDate x = t"
      unfolding st'_def by (rule generateLoop_covered)
  qed
  then show ?thesis
    unfolding g
    by (simp add: generateDeliveriesForDate_def Let_def assms fr t_def [symmetric]
          subs_def [symmetric])
qed

text \<open>Deliveries are created only for the subscriptions the query returned.\<close>

lemma generateLoop_created:
  "\<exists>new. deliveries (fst (generateLoop tz t ss st n)) = deliveries st @ new \<and>
         snd (generateLoop tz t ss st n) = n + length new \<and>
         (\<forall>x\<in>set new. del_deliveryDate x = t \<and> del_status x = ''PENDING'' \<and>
            (\<exists>s\<in>set ss. sub_id s = del_subscriptionId x \<and>
               shouldDeliverOnDate tz (sub_startDate s) t (sub_frequency s)))"
proof (induction ss arbitrary: st n)
  case Nil
  show ?case by simp
next
  case (Cons a ss)
  let ?P = "\<lambda>d. del_subscriptionId d = sub_id a \<and> del_deliveryDate d = t"
  show ?case
  proof (cases "shouldDeliverOnDate tz (sub_startDate a) t (sub_frequency a) \<and>
                find ?P (deliveries st) = None")
    case False
    from Cons.IH [of st n] obtain new where
      "deliveries (fst (generateLoop tz t ss st n)) = deliveries st @ new"
      "snd (generateLoop tz t ss st n) = n + length new"
      "\<forall>x\<in>set new. del_deliveryDate x = t \<and> del_status x = ''PENDING'' \<and>
            (\<exists>s\<in>set ss. sub_id s = del_subscriptionId x \<and>
               shouldDeliverOnDate tz (sub_startDate s) t (sub_frequency s))"
      by blast
    with False show ?thesis
      by (intro exI [of _ new]) auto
  next
    case True
    define b where "b = map_option boy_id (find (\<lambda>b. boy_isActive b \<and>
             areaContains st b (addr_pincode (sub_address a))) (deliveryBoys st))"
    define st1 where "st1 = createDelivery (sub_id a) b t st"
    from Cons.IH [of st1 "n + 1"] obtain new where new:
      "deliveries (fst (generateLoop tz t ss st1 (n + 1))) = deliveries st1 @ new"
      "snd (generateLoop tz t ss st1 (n + 1)) = n + 1 + length new"
      "\<forall>x\<in>set new. del_deliveryDate x = t \<and> del_status x = ''PENDING'' \<and>
            (\<exists>s\<in>set ss. sub_id s = del_subscriptionId x \<and>
               shouldDeliverOnDate tz (sub_startDate s) t (sub_frequency s))"
      by blast
    obtain d where d: "deliveries st1 = deliveries st @ [d]" "del_deliveryDate d = t"
        "del_status d = ''PENDING''" "del_subscriptionId d = sub_id a"
      by (simp add: st1_def createDelivery_def)
    have step: "generateLoop tz t (a # ss) st n = generateLoop tz t ss st1 (n + 1)"
      using True by (simp add: st1_def b_def Let_def)
    show ?thesis
      unfolding step using new d True
      by (intro exI [of _ "d # new"]) auto
  qed
qed

text \<open>A subscription whose status is not \<^verbatim>\<open>ACTIVE\<close> gets no delivery, on any date.\<close>

lemma generate_only_active:
  assumes "\<forall>s\<in>set (subscriptions st). sub_id s = sid \<longrightarrow> sub_status s \<noteq> ''ACTIVE''"
  shows "filter (\<lambda>x. del_subscriptionId x = sid)
           (deliveries (fst (generateDeliveriesForDate tz d st))) =
         filter (\<lambda>x. del_subscriptionId x = sid) (deliveries st)"
proof -
  define t where "t = setHours0 tz d"
  define subs where
    "subs = filter (\<lambda>s. sub_status s = ''ACTIVE'' \<and> sub_startDate s \<le> t) (subscriptions st)"
  obtain new where new: "deliveries (fst (generateLoop tz t subs st 0)) = deliveries st @ new"
    "\<forall>x\<in>set new. \<exists>s\<in>set subs. sub_id s = del_subscriptionId x"
    using generateLoop_created [of tz t subs st 0] by blast
  have "filter (\<lambda>x. del_subscriptionId x = sid) new = []"
    using new(2) assms by (auto simp: filter_empty_conv subs_def)
  then show ?thesis
    using new(1) by (simp add: generateDeliveriesForDate_def Let_def t_def subs_def)
qed

lemmas generate_eval =
  generateDeliveriesForDate_def setHours0_def fixedZone_def msPerDay_def shouldDeliverOnDate_def
  toUpperCase_literals createDelivery_def alternateStore_def alternateSub_def
  exampleAddress_def pendingDelivery_def storeOf_def dailySub_def pausedSub_def
  reactivatedSub_def isDateInPausePeriod_def lateStartSub_def dayNumber_def newYork_def
  Let_def

text \<open>
  C1.  The generator does not read the pause window.  On a server in UTC, the daily
  subscription \<open>S1\<close> is paused on 2024-01-02 for 2024-01-05 to 2024-01-10; the admin then sets its status to
  \<^verbatim>\<open>ACTIVE\<close>, which leaves the window in the row.  Noon of 2024-01-07 lies in the window,
  and the generator creates a delivery of \<open>S1\<close> for that day.
\<close>

theorem generate_inside_pause_window:
  "pauseSubscription (fixedZone 0) 1704153600000 ''S1'' ''C1'' 1704412800000 1704844800000
       (storeOf dailySub) = Inr (storeOf pausedSub, pausedSub) \<and>
   updateCustomerSubscription ''C1'' ''S1'' None (Some ''ACTIVE'') (storeOf pausedSub) =
     Inr (storeOf reactivatedSub, reactivatedSub) \<and>
   isDateInPausePeriod (fixedZone 0) 1704628800000
     (sub_pauseStart reactivatedSub) (sub_pauseEnd reactivatedSub) \<and>
   generateDeliveriesForDate (fixedZone 0) 1704628800000 (storeOf reactivatedSub) =
     ((storeOf reactivatedSub)\<lparr>deliveries := [pendingDelivery 0 ''S1'' None 1704585600000]\<rparr>, 1)"
  by (simp add: generate_eval pauseSubscription_def updateCustomerSubscription_def
        updateSubscriptionRow_def Let_def)

text \<open>
  C4.  Generation is idempotent.  Running \<open>generateDeliveriesForDate\<close> again for a date on
  the same local day creates nothing and leaves the store as the first run left it; and
  when a delivery already exists for a subscription on the target day, a run adds no
  delivery for that subscription.
\<close>

theorem generateDeliveriesForDate_idempotent:
  "(setHours0 tz d' = setHours0 tz d \<longrightarrow>
      generateDeliveriesForDate tz d' (fst (generateDeliveriesForDate tz d st)) =
        (fst (generateDeliveriesForDate tz d st), 0)) \<and>
   ((\<exists>x\<in>set (deliveries st). del_subscriptionId x = sid \<and> del_deliveryDate x = setHours0 tz d) \<longrightarrow>
      filter (\<lambda>x. del_subscriptionId x = sid)
        (deliveries (fst (generateDeliveriesForDate tz d st))) =
      filter (\<lambda>x. del_subscriptionId x = sid) (deliveries st))"
proof (intro conjI impI)
  assume "setHours0 tz d' = setHours0 tz d"
  then show "generateDeliveriesForDate tz d' (fst (generateDeliveriesForDate tz d st)) =
        (fst (generateDeliveriesForDate tz d st), 0)"
    by (rule generate_twice)
next
  assume "\<exists>x\<in>set (deliveries st). del_subscriptionId x = sid \<and> del_deliveryDate x = setHours0 tz d"
  then show "filter (\<lambda>x. del_subscriptionId x = sid)
        (deliveries (fst (generateDeliveriesForDate tz d st))) =
      filter (\<lambda>x. del_subscriptionId x = sid) (deliveries st)"
    unfolding generateDeliveriesForDate_def Let_def by (rule generateLoop_no_second)
qed

theorem generateDeliveriesForDate_idempotent_witness:
  "setHours0 (fixedZone 0) 1704070800000 = setHours0 (fixedZone 0) 1704067200000 \<and>
   generateDeliveriesForDate (fixedZone 0) 1704070800000
       (fst (generateDeliveriesForDate (fixedZone 0) 1704067200000 alternateStore)) =
     (alternateStore\<lparr>deliveries := [pendingDelivery 0 ''S1'' None 1704067200000]\<rparr>, 0) \<and>
   (\<exists>x\<in>set (deliveries (alternateStore\<lparr>deliveries :=
                 [pendingDelivery 0 ''S1'' None 1704067200000]\<rparr>)).
       del_subscriptionId x = ''S1'' \<and> del_deliveryDate x = setHours0 (fixedZone 0) 1704067200000) \<and>
   filter (\<lambda>x. del_subscriptionId x = ''S1'')
     (deliveries (fst (generateDeliveriesForDate (fixedZone 0) 1704067200000
        (alternateStore\<lparr>deliveries := [pendingDelivery 0 ''S1'' None 1704067200000]\<rparr>)))) =
     [pendingDelivery 0 ''S1'' None 1704067200000]"
  using generateDeliveriesForDate_idempotent
          [of "fixedZone 0" 1704070800000 1704067200000 alternateStore "''S1''"]
        generateDeliveriesForDate_idempotent
          [of "fixedZone 0" 1704067200000 1704067200000
              "alternateStore\<lparr>deliveries := [pendingDelivery 0 ''S1'' None 1704067200000]\<rparr>"
              "''S1''"]
  by (simp add: generate_eval)

text \<open>
  C5.  The generator and the predicate leave the recurrence rule in three places.

  On a server in UTC, the every-other-day subscription whose start is stored as
  2024-01-01 10:00 UTC is active and 2024-01-01 is its start day, a delivery day of the
  predicate; the generator compares the stored start with the target midnight, finds
  it later, and creates nothing on 2024-01-01: the counts for 2024-01-01, 2024-01-02
  and 2024-01-03 are 0, 0, 1.

  On a server in India Standard Time, the subscription started 2024-01-01 (stored as
  midnight UTC, which is 05:30 local) yields the counts 0, 0, 1 for the same three
  dates.

  On a server in New York, for a start on 2024-03-04, the local midnights of 2024-03-04
  and 2024-03-11 are 167 hours apart, so \<^verbatim>\<open>Math.floor\<close> gives the offset 6 for the day at
  calendar offset 7: a weekly subscription has no delivery on 2024-03-11, and an
  every-other-day subscription has one on 2024-03-11 (calendar offset 7) and none on
  2024-03-12 (calendar offset 8).
\<close>

theorem generate_recurrence_divergence:
  "sub_status lateStartSub = ''ACTIVE'' \<and>
   dayNumber (fixedZone 0) (sub_startDate lateStartSub) = dayNumber (fixedZone 0) 1704067200000 \<and>
   shouldDeliverOnDate (fixedZone 0) (sub_startDate lateStartSub) 1704067200000
     (sub_frequency lateStartSub) \<and>
   generateDeliveriesForDate (fixedZone 0) 1704067200000 (storeOf lateStartSub) =
     (storeOf lateStartSub, 0) \<and>
   generateDeliveriesForDate (fixedZone 0) 1704153600000 (storeOf lateStartSub) =
     (storeOf lateStartSub, 0) \<and>
   generateDeliveriesForDate (fixedZone 0) 1704240000000 (storeOf lateStartSub) =
     ((storeOf lateStartSub)\<lparr>deliveries := [pendingDelivery 0 ''S1'' None 1704240000000]\<rparr>, 1) \<and>
   generateDeliveriesForDate (fixedZone 19800000) 1704067200000 alternateStore =
     (alternateStore, 0) \<and>
   generateDeliveriesForDate (fixedZone 19800000) 1704153600000 alternateStore =
     (alternateStore, 0) \<and>
   generateDeliveriesForDate (fixedZone 19800000) 1704240000000 alternateStore =
     (alternateStore\<lparr>deliveries := [pendingDelivery 0 ''S1'' None 1704220200000]\<rparr>, 1) \<and>
   dayNumber newYork 1710129600000 - dayNumber newYork 1709528400000 = 7 \<and>
   \<not> shouldDeliverOnDate newYork 1709528400000 1710129600000 ''WEEKLY'' \<and>
   shouldDeliverOnDate newYork 1709528400000 1710129600000 ''ALTERNATE'' \<and>
   dayNumber newYork 1710216000000 - dayNumber newYork 1709528400000 = 8 \<and>
   \<not> shouldDeliverOnDate newYork 1709528400000 1710216000000 ''ALTERNATE''"
  by (simp add: generate_eval)

subsection \<open>Obligation lifecycle\<close>

lemmas lifecycle_eval =
  markDeliveryCompleted_def markDeliveryFailed_def startDelivery_def updateDelivery_def
  lifecycleStore_def alternateStore_def alternateSub_def exampleAddress_def
  pendingDelivery_def failedDelivery_def completedAfterFailure_def exampleProof_def
  reasonWithCode_def failureReasonsHas_def FAILURE_REASONS_def objectPrototypeKeys_def

text \<open>What a successful completion and a successful failure report have checked and stored.\<close>

lemma markDeliveryCompleted_success:
  assumes "markDeliveryCompleted now i a proof st = Inr (st', d')"
  shows "\<exists>p. proof = Some p \<and> proof_url p \<noteq> [] \<and> del_status d' = ''DELIVERED'' \<and>
             del_proofUrl d' = Some (proof_url p) \<and> del_proofType d' = Some (proof_type p) \<and>
             del_completedAt d' = Some now"
  using assms
  by (auto simp: markDeliveryCompleted_def Let_def split: option.splits if_splits)

lemma markDeliveryFailed_success:
  assumes "markDeliveryFailed now i a reason st = Inr (st', d')"
  shows "\<exists>r. reason = Some r \<and> reason_code r \<noteq> [] \<and> failureReasonsHas (reason_code r) \<and>
             del_status d' = ''FAILED'' \<and> del_failureReason d' = Some (reason_code r) \<and>
             del_failureNotes d' = reason_notes r \<and> del_completedAt d' = Some now"
  using assms
  by (auto simp: markDeliveryFailed_def Let_def split: option.splits if_splits)

text \<open>Starting and failing leave every terminal delivery as it is; completing leaves every
  delivered one as it is.\<close>

lemma startDelivery_terminal_rejected:
  assumes "find (\<lambda>d. del_id d = i) (deliveries st) = Some d"
    and "del_status d = ''DELIVERED'' \<or> del_status d = ''FAILED''"
  shows "\<exists>e. startDelivery i a st = Inl e"
  using assms by (auto simp: startDelivery_def)

lemma markDeliveryFailed_terminal_rejected:
  assumes "find (\<lambda>d. del_id d = i) (deliveries st) = Some d"
    and "del_status d = ''DELIVERED'' \<or> del_status d = ''FAILED''"
  shows "\<exists>e. markDeliveryFailed now i a reason st = Inl e"
  using assms by (auto simp: markDeliveryFailed_def)

lemma markDeliveryCompleted_delivered_rejected:
  assumes "find (\<lambda>d. del_id d = i) (deliveries st) = Some d"
    and "del_status d = ''DELIVERED''"
  shows "\<exists>e. markDeliveryCompleted now i a proof st = Inl e"
  using assms by (auto simp: markDeliveryCompleted_def)

text \<open>
  C3.  A failed delivery is not terminal for completion: the delivery of
  \<^const>\<open>lifecycleStore\<close>, failed by its delivery boy with reason \<^verbatim>\<open>OTHER\<close>, is then completed
  by the same delivery boy.  \<^const>\<open>markDeliveryCompleted\<close> rejects only the status
  \<^verbatim>\<open>DELIVERED\<close>, so the status goes from \<^verbatim>\<open>FAILED\<close> to \<^verbatim>\<open>DELIVERED\<close>, and the row keeps
  its failure reason next to the proof.
\<close>

theorem markDeliveryCompleted_accepts_failed:
  "markDeliveryFailed 1704090000000 0 ''B1'' (Some (reasonWithCode ''OTHER'')) lifecycleStore =
     Inr (lifecycleStore\<lparr>deliveries := [failedDelivery]\<rparr>, failedDelivery) \<and>
   del_status failedDelivery = ''FAILED'' \<and>
   markDeliveryCompleted 1704093600000 0 ''B1'' (Some exampleProof)
       (lifecycleStore\<lparr>deliveries := [failedDelivery]\<rparr>) =
     Inr (lifecycleStore\<lparr>deliveries := [completedAfterFailure]\<rparr>, completedAfterFailure) \<and>
   del_status completedAfterFailure = ''DELIVERED'' \<and>
   del_failureReason completedAfterFailure = Some ''OTHER''"
  by (simp add: lifecycle_eval)

text \<open>
  C7.  The catalog check of \<^const>\<open>markDeliveryFailed\<close> accepts a code outside the seven
  catalog entries: \<^verbatim>\<open>FAILURE_REASONS['constructor']\<close> is the inherited
  \<^verbatim>\<open>Object.prototype.constructor\<close>, which is truthy, so the report succeeds and the code
  \<^verbatim>\<open>constructor\<close> is stored as the failure reason.
\<close>

theorem markDeliveryFailed_accepts_prototype_key:
  "''constructor'' \<notin> set (map fst FAILURE_REASONS) \<and>
   length FAILURE_REASONS = 7 \<and>
   markDeliveryFailed 1704090000000 0 ''B1'' (Some (reasonWithCode ''constructor''))
       lifecycleStore =
     Inr (lifecycleStore\<lparr>deliveries :=
            [failedDelivery\<lparr>del_failureReason := Some ''constructor''\<rparr>]\<rparr>,
          failedDelivery\<lparr>del_failureReason := Some ''constructor''\<rparr>)"
  by (simp add: lifecycle_eval)

text \<open>
  C10.  The three transitions check in one order.  A missing delivery is \<open>notFound\<close>
  whatever the other arguments; then a delivery whose delivery boy is not the caller,
  an unassigned delivery among them, is \<open>forbidden\<close> whatever its status and the proof
  or reason; then the status guard answers whatever the proof or reason; the proof and
  the reason are validated last.
\<close>

theorem lifecycle_guard_order:
  "(find (\<lambda>d. del_id d = i) (deliveries st) = None \<longrightarrow>
      startDelivery i a st = Inl (ApiError notFound ''DEL_001'') \<and>
      markDeliveryCompleted now i a proof st = Inl (ApiError notFound ''DEL_001'') \<and>
      markDeliveryFailed now i a reason st = Inl (ApiError notFound ''DEL_001'')) \<and>
   (find (\<lambda>d. del_id d = i) (deliveries st) = Some d \<and> del_deliveryBoyId d \<noteq> Some a \<longrightarrow>
      startDelivery i a st = Inl (ApiError forbidden ''DEL_005'') \<and>
      markDeliveryCompleted now i a proof st = Inl (ApiError forbidden ''DEL_005'') \<and>
      markDeliveryFailed now i a reason st = Inl (ApiError forbidden ''DEL_005'')) \<and>
   (find (\<lambda>d. del_id d = i) (deliveries st) = Some d \<and> del_deliveryBoyId d = None \<longrightarrow>
      startDelivery i a st = Inl (ApiError forbidden ''DEL_005'') \<and>
      markDeliveryCompleted now i a proof st = Inl (ApiError forbidden ''DEL_005'') \<and>
      markDeliveryFailed now i a reason st = Inl (ApiError forbidden ''DEL_005'')) \<and>
   (find (\<lambda>d. del_id d = i) (deliveries st) = Some d \<and> del_deliveryBoyId d = Some a \<and>
    del_status d \<noteq> ''PENDING'' \<longrightarrow>
      startDelivery i a st = Inl (ApiError badRequest ''DEL_008'')) \<and>
   (find (\<lambda>d. del_id d = i) (deliveries st) = Some d \<and> del_deliveryBoyId d = Some a \<and>
    del_status d = ''DELIVERED'' \<longrightarrow>
      markDeliveryCompleted now i a proof st = Inl (ApiError badRequest ''DEL_002'')) \<and>
   (find (\<lambda>d. del_id d = i) (deliveries st) = Some d \<and> del_deliveryBoyId d = Some a \<and>
    (del_status d = ''DELIVERED'' \<or> del_status d = ''FAILED'') \<longrightarrow>
      markDeliveryFailed now i a reason st = Inl (ApiError badRequest ''DEL_006'')) \<and>
   (find (\<lambda>d. del_id d = i) (deliveries st) = Some d \<and> del_deliveryBoyId d = Some a \<and>
    del_status d \<noteq> ''DELIVERED'' \<and> (proof = None \<or> map_option proof_url proof = Some []) \<longrightarrow>
      markDeliveryCompleted now i a proof st = Inl (ApiError badRequest ''DEL_003'')) \<and>
   (find (\<lambda>d. del_id d = i) (deliveries st) = Some d \<and> del_deliveryBoyId d = Some a \<and>
    del_status d \<noteq> ''DELIVERED'' \<and> del_status d \<noteq> ''FAILED'' \<and>
    (reason = None \<or> map_option reason_code reason = Some []) \<longrightarrow>
      markDeliveryFailed now i a reason st = Inl (ApiError badRequest ''DEL_004'')) \<and>
   (find (\<lambda>d. del_id d = i) (deliveries st) = Some d \<and> del_deliveryBoyId d = Some a \<and>
    del_status d \<noteq> ''DELIVERED'' \<and> del_status d \<noteq> ''FAILED'' \<and>
    reason = Some r \<and> reason_code r \<noteq> [] \<and> \<not> failureReasonsHas (reason_code r) \<longrightarrow>
      markDeliveryFailed now i a reason st = Inl (ApiError badRequest ''DEL_007''))"
  by (auto simp: startDelivery_def markDeliveryCompleted_def markDeliveryFailed_def
        split: option.splits)

theorem lifecycle_guard_order_witness:
  "markDeliveryCompleted 1704093600000 0 ''B1''
      (Some (exampleProof\<lparr>proof_url := []\<rparr>))
      (lifecycleStore\<lparr>deliveries := [completedAfterFailure]\<rparr>) =
     Inl (ApiError badRequest ''DEL_002'') \<and>
   markDeliveryCompleted 1704093600000 0 ''B1'' (Some exampleProof)
      (lifecycleStore\<lparr>deliveries := [pendingDelivery 0 ''S1'' None 1704067200000]\<rparr>) =
     Inl (ApiError forbidden ''DEL_005'') \<and>
   startDelivery 0 ''B2'' lifecycleStore = Inl (ApiError forbidden ''DEL_005'') \<and>
   markDeliveryFailed 1704093600000 7 ''B1'' None lifecycleStore =
     Inl (ApiError notFound ''DEL_001'') \<and>
   markDeliveryFailed 1704093600000 0 ''B1'' None
      (lifecycleStore\<lparr>deliveries := [failedDelivery]\<rparr>) =
     Inl (ApiError badRequest ''DEL_006'') \<and>
   markDeliveryFailed 1704093600000 0 ''B1'' (Some (reasonWithCode ''LATE''))
      lifecycleStore = Inl (ApiError badRequest ''DEL_007'')"
  using lifecycle_guard_order
          [of 0 "lifecycleStore\<lparr>deliveries := [completedAfterFailure]\<rparr>"
              "''B1''" 1704093600000 "Some (exampleProof\<lparr>proof_url := []\<rparr>)" None
              completedAfterFailure "reasonWithCode ''LATE''"]
        lifecycle_guard_order
          [of 0 "lifecycleStore\<lparr>deliveries := [pendingDelivery 0 ''S1'' None 1704067200000]\<rparr>"
              "''B1''" 1704093600000 "Some exampleProof" None
              "pendingDelivery 0 ''S1'' None 1704067200000" "reasonWithCode ''LATE''"]
        lifecycle_guard_order
          [of 0 lifecycleStore "''B2''" 1704093600000 None None
              "pendingDelivery 0 ''S1'' (Some ''B1'') 1704067200000" "reasonWithCode ''LATE''"]
        lifecycle_guard_order
          [of 7 lifecycleStore "''B1''" 1704093600000 None None
              "pendingDelivery 0 ''S1'' (Some ''B1'') 1704067200000" "reasonWithCode ''LATE''"]
        lifecycle_guard_order
          [of 0 "lifecycleStore\<lparr>deliveries := [failedDelivery]\<rparr>" "''B1''" 1704093600000
              None None failedDelivery "reasonWithCode ''LATE''"]
        lifecycle_guard_order
          [of 0 lifecycleStore "''B1''" 1704093600000 None
              "Some (reasonWithCode ''LATE'')"
              "pendingDelivery 0 ''S1'' (Some ''B1'') 1704067200000" "reasonWithCode ''LATE''"]
  by (simp add: lifecycleStore_def alternateStore_def pendingDelivery_def failedDelivery_def
        completedAfterFailure_def exampleProof_def reasonWithCode_def failureReasonsHas_def
        FAILURE_REASONS_def objectPrototypeKeys_def)

subsection \<open>Route optimizer\<close>

declare nearestNeighbour.simps [simp del]

lemma withoutCoordsPred_iff: "withoutCoordsPred d \<longleftrightarrow> \<not> withCoordsPred d"
  by (simp add: withoutCoordsPred_def withCoordsPred_def split: option.splits)

lemma withCoordsPred_coordinates: "withCoordsPred d \<Longrightarrow> dv_coordinates d \<noteq> None"
  by (simp add: withCoordsPred_def split: option.splits)

text \<open>The scan returns the start index or an index it has visited.\<close>

lemma nearestScan_index:
  assumes "\<forall>r\<in>set rs. dv_coordinates r \<noteq> None"
  shows "\<exists>idx dist. nearestScan cd c rs i (bi, bd) = Some (idx, dist) \<and>
           (idx = bi \<or> i \<le> idx \<and> idx < i + length rs)"
  using assms
proof (induction rs arbitrary: i bi bd)
  case Nil
  show ?case by simp
next
  case (Cons r rs)
  then obtain rc where rc: "dv_coordinates r = Some rc" by auto
  have all: "\<forall>r\<in>set rs. dv_coordinates r \<noteq> None" using Cons.prems by simp
  show ?case
  proof (cases "lessThan (cd (lat c) (lng c) (lat rc) (lng rc)) bd")
    case True
    from Cons.IH [OF all, of "i + 1" i "cd (lat c) (lng c) (lat rc) (lng rc)"]
    show ?thesis using True rc by (auto simp: Let_def)
  next
    case False
    from Cons.IH [OF all, of "i + 1" bi bd]
    show ?thesis using False rc by (auto simp: Let_def)
  qed
qed

lemma mset_remove_nth:
  assumes "i < length xs"
  shows "mset (take i xs @ drop (Suc i) xs) + {#xs ! i#} = mset xs"
proof -
  from assms have "xs = take i xs @ xs ! i # drop (Suc i) xs" by (rule id_take_nth_drop)
  then have "mset xs = mset (take i xs @ xs ! i # drop (Suc i) xs)" by simp
  then show ?thesis by simp
qed

text \<open>The loop ends, keeps what it has placed and places each remaining stop once.\<close>

lemma nearestNeighbour_tour:
  assumes "optimized \<noteq> []"
    and "\<forall>r\<in>set optimized \<union> set remaining. dv_coordinates r \<noteq> None"
  shows "\<exists>tour. nearestNeighbour cd optimized remaining = Some (optimized @ tour) \<and>
           mset tour = mset remaining"
  using assms
proof (induction cd optimized remaining rule: nearestNeighbour.induct)
  case (1 cd optimized remaining)
  show ?case
  proof (cases "remaining = []")
    case True
    then show ?thesis by (simp add: nearestNeighbour.simps)
  next
    case False
    from "1.prems"(1) obtain l ls where rv: "rev optimized = l # ls"
      by (cases "rev optimized") auto
    then have "l \<in> set optimized" by (metis list.set_intros(1) set_rev)
    with "1.prems"(2) obtain lastC where lc: "dv_coordinates l = Some lastC" by auto
    have allr: "\<forall>r\<in>set remaining. dv_coordinates r \<noteq> None" using "1.prems"(2) by simp
    from nearestScan_index [OF allr, of cd lastC 0 0 PosInfinity]
    obtain idx dist where sc: "nearestScan cd lastC remaining 0 (0, PosInfinity) = Some (idx, dist)"
      and "idx = 0 \<or> idx < length remaining" by auto
    with False have lt: "idx < length remaining" by auto
    let ?opt = "optimized @ [remaining ! idx]"
    let ?rem = "take idx remaining @ drop (Suc idx) remaining"
    have "set ?rem \<subseteq> set remaining"
      by (auto dest: in_set_takeD in_set_dropD)
    moreover have "remaining ! idx \<in> set remaining" using lt by simp
    ultimately have all': "\<forall>r\<in>set ?opt \<union> set ?rem. dv_coordinates r \<noteq> None"
      using "1.prems"(2) by auto
    have "?opt \<noteq> []" by simp
    from "1.IH" [OF False rv lc sc refl lt this all']
    obtain tour where tour: "nearestNeighbour cd ?opt ?rem = Some (?opt @ tour)"
      "mset tour = mset ?rem" by blast
    have "nearestNeighbour cd optimized remaining = nearestNeighbour cd ?opt ?rem"
      using False rv lc sc lt by (subst nearestNeighbour.simps) simp
    moreover have "mset (remaining ! idx # tour) = mset remaining"
      using tour(2) mset_remove_nth [OF lt] by simp
    ultimately show ?thesis
      using tour(1) by (intro exI [of _ "remaining ! idx # tour"]) simp
  qed
qed

lemma optimizeRoute_shape:
  "\<exists>tour. optimizeRoute cd ds = Some (tour @ filter withoutCoordsPred ds) \<and>
          mset tour = mset (filter withCoordsPred ds) \<and>
          (length ds \<le> 1 \<longrightarrow> tour @ filter withoutCoordsPred ds = ds)"
proof (cases "length ds \<le> 1")
  case True
  then consider "ds = []" | d where "ds = [d]"
    by (cases ds) (auto simp: le_Suc_eq)
  then show ?thesis
  proof cases
    case 1
    then show ?thesis by (simp add: optimizeRoute_def)
  next
    case 2
    then show ?thesis
      by (cases "withCoordsPred d") (simp_all add: optimizeRoute_def withoutCoordsPred_iff)
  qed
next
  case False
  show ?thesis
  proof (cases "length (filter withCoordsPred ds) \<le> 1")
    case True
    with False show ?thesis by (simp add: optimizeRoute_def Let_def)
  next
    case long: False
    then obtain first remaining where fr: "filter withCoordsPred ds = first # remaining"
      by (cases "filter withCoordsPred ds") auto
    have "\<forall>r\<in>set (filter withCoordsPred ds). dv_coordinates r \<noteq> None"
      by (simp add: withCoordsPred_coordinates)
    then have "\<forall>r\<in>set [first] \<union> set remaining. dv_coordinates r \<noteq> None"
      unfolding fr by simp
    from nearestNeighbour_tour [OF _ this, of cd]
    obtain tour where "nearestNeighbour cd [first] remaining = Some ([first] @ tour)"
      "mset tour = mset remaining" by auto
    with False long fr show ?thesis
      by (intro exI [of _ "first # tour"]) (simp add: optimizeRoute_def Let_def)
  qed
qed

lemmas route_eval =
  optimizeRoute_def exampleStops_def stop_def withCoordsPred_def withoutCoordsPred_def
  nearestNeighbour.simps calculateTotalDistance_def transformCoordinates_def Let_def

text \<open>
  C6.  \<open>optimizeRoute\<close> returns, for every input and every distance function, a
  permutation of the input.  An input of at most one delivery is returned as it is, and
  its total distance is 0.  The result is a tour of deliveries that pass the coordinate
  test, followed by the deliveries that fail it in their input order.
\<close>

theorem optimizeRoute_permutation:
  "\<exists>r. optimizeRoute cd ds = Some r \<and> mset r = mset ds \<and>
       (length ds \<le> 1 \<longrightarrow> r = ds \<and> calculateTotalDistance cd add r = Num 0) \<and>
       (\<exists>tour. r = tour @ filter withoutCoordsPred ds \<and> (\<forall>d\<in>set tour. withCoordsPred d))"
proof -
  obtain tour where tour: "optimizeRoute cd ds = Some (tour @ filter withoutCoordsPred ds)"
    "mset tour = mset (filter withCoordsPred ds)"
    "length ds \<le> 1 \<longrightarrow> tour @ filter withoutCoordsPred ds = ds"
    using optimizeRoute_shape by blast
  have wo: "filter withoutCoordsPred ds = filter (\<lambda>d. \<not> withCoordsPred d) ds"
    by (rule filter_cong [OF refl]) (simp add: withoutCoordsPred_iff)
  have "mset (tour @ filter withoutCoordsPred ds) = mset ds"
    using tour(2) by (simp add: wo)
  moreover have "\<forall>d\<in>set tour. withCoordsPred d"
    using mset_eq_setD [OF tour(2)] by simp
  moreover have "length ds \<le> 1 \<longrightarrow> calculateTotalDistance cd add ds = Num 0"
    by (simp add: calculateTotalDistance_def)
  ultimately show ?thesis using tour(1,3) by auto
qed

theorem optimizeRoute_permutation_witness:
  "optimizeRoute flatDistance exampleStops =
     Some [stop 0 (Some \<lparr>lat = Num 28.6, lng = Num 77.2\<rparr>),
           stop 4 (Some \<lparr>lat = Num 28.61, lng = Num 77.21\<rparr>),
           stop 3 (Some \<lparr>lat = Num 28.7, lng = Num 77.3\<rparr>),
           stop 1 None,
           stop 2 (Some \<lparr>lat = Num 0, lng = Num 77\<rparr>)] \<and>
   (\<exists>r. optimizeRoute flatDistance [stop 1 None] = Some r \<and> r = [stop 1 None] \<and>
        calculateTotalDistance flatDistance (\<lambda>a b. a) r = Num 0)"
  using optimizeRoute_permutation [of flatDistance exampleStops "\<lambda>a b. a"]
        optimizeRoute_permutation [of flatDistance "[stop 1 None]" "\<lambda>a b. a"]
  by (simp add: route_eval)

text \<open>
  C9.  The coordinate test is a truthiness test.  A delivery without coordinates, or with
  latitude 0 or longitude 0, fails it: it is not in the nearest-neighbour tour and
  stands in the block appended after the tour.  \<open>transformCoordinates\<close> drops the
  coordinates of such an address in the same way.
\<close>

theorem optimizeRoute_zero_coordinate:
  "(d \<in> set ds \<and>
    (dv_coordinates d = None \<or>
     (\<exists>c. dv_coordinates d = Some c \<and> (lat c = Num 0 \<or> lng c = Num 0))) \<longrightarrow>
      (\<exists>tour. optimizeRoute cd ds = Some (tour @ filter withoutCoordsPred ds) \<and>
              set tour = set (filter withCoordsPred ds) \<and>
              d \<notin> set tour \<and> d \<in> set (filter withoutCoordsPred ds))) \<and>
   (addr_latitude a = Some (Num 0) \<or> addr_longitude a = Some (Num 0) \<longrightarrow>
      transformCoordinates a = None)"
proof (intro conjI impI)
  assume h: "d \<in> set ds \<and>
    (dv_coordinates d = None \<or>
     (\<exists>c. dv_coordinates d = Some c \<and> (lat c = Num 0 \<or> lng c = Num 0)))"
  then have no: "\<not> withCoordsPred d"
    by (auto simp: withCoordsPred_def)
  obtain tour where tour: "optimizeRoute cd ds = Some (tour @ filter withoutCoordsPred ds)"
    "mset tour = mset (filter withCoordsPred ds)"
    using optimizeRoute_shape by blast
  have "set tour = set (filter withCoordsPred ds)"
    using mset_eq_setD [OF tour(2)] .
  with tour(1) h no
  show "\<exists>tour. optimizeRoute cd ds = Some (tour @ filter withoutCoordsPred ds) \<and>
              set tour = set (filter withCoordsPred ds) \<and>
              d \<notin> set tour \<and> d \<in> set (filter withoutCoordsPred ds)"
    by (intro exI [of _ tour]) (simp add: withoutCoordsPred_iff)
next
  assume "addr_latitude a = Some (Num 0) \<or> addr_longitude a = Some (Num 0)"
  then show "transformCoordinates a = None"
    by (auto simp: transformCoordinates_def split: option.splits)
qed

theorem optimizeRoute_zero_coordinate_witness:
  "stop 2 (Some \<lparr>lat = Num 0, lng = Num 77\<rparr>) \<in> set exampleStops \<and>
   (\<exists>tour. optimizeRoute flatDistance exampleStops =
             Some (tour @ [stop 1 None, stop 2 (Some \<lparr>lat = Num 0, lng = Num 77\<rparr>)]) \<and>
           stop 2 (Some \<lparr>lat = Num 0, lng = Num 77\<rparr>) \<notin> set tour) \<and>
   transformCoordinates
     \<lparr>addr_pincode = ''110003'', addr_latitude = Some (Num 0),
      addr_longitude = Some (Num 77)\<rparr> = None"
  using optimizeRoute_zero_coordinate
          [of "stop 2 (Some \<lparr>lat = Num 0, lng = Num 77\<rparr>)" exampleStops flatDistance
              "\<lparr>addr_pincode = ''110003'', addr_latitude = Some (Num 0),
                addr_longitude = Some (Num 77)\<rparr>"]
  by (auto simp: exampleStops_def stop_def withCoordsPred_def withoutCoordsPred_def)

subsection \<open>Assignment resolver and reassignment cascade\<close>

lemma updateDelivery_frame [simp]:
  "subscriptions (updateDelivery i f st) = subscriptions st"
  "areas (updateDelivery i f st) = areas st"
  "deliveryBoys (updateDelivery i f st) = deliveryBoys st"
  by (simp_all add: updateDelivery_def)

lemma areaContains_areas: "areas st' = areas st \<Longrightarrow> areaContains st' b p = areaContains st b p"
  by (simp add: areaContains_def)

lemma coveringDeliveryBoyId_frame:
  assumes "areas st' = areas st" and "deliveryBoys st' = deliveryBoys st"
  shows "coveringDeliveryBoyId st' bid p = coveringDeliveryBoyId st bid p"
proof -
  have "areaContains st' = areaContains st"
    by (intro ext) (simp add: areaContains_def assms(1))
  then show ?thesis by (simp add: coveringDeliveryBoyId_def assms(2))
qed

lemma reassignLoop_step:
  "reassignLoop bid ((x, p) # rest) st n =
     reassignLoop bid rest (updateDelivery (del_id x) (\<lambda>d. d\<lparr>del_deliveryBoyId := coveringDeliveryBoyId st bid p\<rparr>) st) (n + 1)"
  by (simp add: coveringDeliveryBoyId_def split: option.splits)

lemma reassignLoop_result:
  assumes "distinct (map (\<lambda>(x, p). del_id x) xs)"
  shows "reassignLoop bid xs st n =
    (st\<lparr>deliveries := map (\<lambda>d. case find (\<lambda>(x, p). del_id x = del_id d) xs of
                                  None \<Rightarrow> d
                                | Some (x, p) \<Rightarrow> d\<lparr>del_deliveryBoyId := coveringDeliveryBoyId st bid p\<rparr>)
                           (deliveries st)\<rparr>, n + length xs)"
  using assms
proof (induction xs arbitrary: st n)
  case Nil
  show ?case by simp
next
  case (Cons a rest)
  obtain x p where a: "a = (x, p)" by (cases a)
  define st1 where "st1 = updateDelivery (del_id x) (\<lambda>d. d\<lparr>del_deliveryBoyId := coveringDeliveryBoyId st bid p\<rparr>) st"
  have d: "distinct (map (\<lambda>(x, p). del_id x) rest)" and
       nin: "\<forall>(y, q)\<in>set rest. del_id y \<noteq> del_id x"
    using Cons.prems by (force simp: a)+
  have r: "coveringDeliveryBoyId st1 bid q = coveringDeliveryBoyId st bid q" for q
    by (rule coveringDeliveryBoyId_frame) (simp_all add: st1_def)
  have fx: "find (\<lambda>(y, q). del_id y = del_id x) rest = None"
    using nin by (auto simp: find_None_iff)
  define g1 where "g1 = (\<lambda>d::delivery. case find (\<lambda>(x, p). del_id x = del_id d) rest of
                                  None \<Rightarrow> d
                                | Some (x, p) \<Rightarrow> d\<lparr>del_deliveryBoyId := coveringDeliveryBoyId st1 bid p\<rparr>)"
  define g1' where "g1' = (\<lambda>d::delivery. case find (\<lambda>(x, p). del_id x = del_id d) rest of
                                  None \<Rightarrow> d
                                | Some (x, p) \<Rightarrow> d\<lparr>del_deliveryBoyId := coveringDeliveryBoyId st bid p\<rparr>)"
  define g where "g = (\<lambda>d::delivery. case find (\<lambda>(x, p). del_id x = del_id d) (a # rest) of
                                  None \<Rightarrow> d
                                | Some (x, p) \<Rightarrow> d\<lparr>del_deliveryBoyId := coveringDeliveryBoyId st bid p\<rparr>)"
  define f1 where "f1 = (\<lambda>d::delivery. if del_id d = del_id x
                              then d\<lparr>del_deliveryBoyId := coveringDeliveryBoyId st bid p\<rparr> else d)"
  have g1: "g1 = g1'" unfolding g1_def g1'_def r ..
  have pt: "g1' (f1 d) = g d" for d
  proof (cases "del_id d = del_id x")
    case True
    then show ?thesis by (simp add: g1'_def f1_def g_def a fx)
  next
    case False
    then have "del_id x \<noteq> del_id d" by simp
    then show ?thesis using False by (simp add: g1'_def f1_def g_def a)
  qed
  have st1: "st1 = st\<lparr>deliveries := map f1 (deliveries st)\<rparr>"
    by (simp add: st1_def updateDelivery_def f1_def)
  have "reassignLoop bid (a # rest) st n = reassignLoop bid rest st1 (n + 1)"
    unfolding a st1_def by (rule reassignLoop_step)
  also have "\<dots> = (st1\<lparr>deliveries := map g1 (deliveries st1)\<rparr>, n + 1 + length rest)"
    unfolding g1_def by (rule Cons.IH [OF d])
  also have "\<dots> = (st\<lparr>deliveries := map g (deliveries st)\<rparr>, n + length (a # rest))"
    by (simp add: st1 g1 pt)
  finally show ?case unfolding g_def .
qed

lemma those_Some: "those os = Some ys \<Longrightarrow> os = map Some ys"
  by (induction os arbitrary: ys) (auto split: option.splits)

lemma joined_shape:
  assumes "map (\<lambda>d. map_option (Pair d) (f d)) ds = map Some js"
  shows "map fst js = ds \<and> (\<forall>(d, p)\<in>set js. f d = Some p)"
  using assms
proof (induction ds arbitrary: js)
  case Nil
  then show ?case by simp
next
  case (Cons d ds)
  then obtain j js' where js: "js = j # js'" by (cases js) auto
  with Cons.prems have "map_option (Pair d) (f d) = Some j"
    "map (\<lambda>d. map_option (Pair d) (f d)) ds = map Some js'" by auto
  with Cons.IH [of js'] js show ?case by auto
qed

lemma find_Some_mem: "find P xs = Some x \<Longrightarrow> x \<in> set xs \<and> P x"
  by (induction xs) (auto split: if_splits)

lemma distinct_ids_eq:
  assumes "distinct (map del_id ds)" "x \<in> set ds" "y \<in> set ds" "del_id x = del_id y"
  shows "x = y"
  using assms by (meson distinct_map inj_onD)

lemma joined_filter_fst:
  assumes "\<forall>(d, p)\<in>set js. f d = Some p"
  shows "map fst (filter (\<lambda>(d, p). \<not> Q p) js) =
         filter (\<lambda>d. \<exists>p. f d = Some p \<and> \<not> Q p) (map fst js)"
  using assms by (induction js) auto

lemma cascade_find:
  assumes dist: "distinct (map del_id ds)"
    and js: "map fst js = filter P ds" "\<forall>(d, p)\<in>set js. f d = Some p"
    and d: "d \<in> set ds"
  shows "find (\<lambda>(x, p). del_id x = del_id d) (filter (\<lambda>(d, p). \<not> Q p) js) =
           (if P d then (case f d of Some p \<Rightarrow> if \<not> Q p then Some (d, p) else None | None \<Rightarrow> None)
            else None)"
proof -
  let ?xs = "filter (\<lambda>(d, p). \<not> Q p) js"
  have mem: "(x, p) \<in> set js \<Longrightarrow> x \<in> set ds \<and> P x \<and> f x = Some p" for x p
  proof -
    assume a: "(x, p) \<in> set js"
    then have "x \<in> set (map fst js)" by force
    then show ?thesis using js a by auto
  qed
  show ?thesis
  proof (cases "find (\<lambda>(x, p). del_id x = del_id d) ?xs")
    case None
    then have none: "\<forall>(x, p)\<in>set ?xs. del_id x \<noteq> del_id d"
      by (auto simp: find_None_iff)
    show ?thesis
    proof (cases "P d")
      case False
      then show ?thesis using None by simp
    next
      case True
      then have "d \<in> set (map fst js)" using d js(1) by simp
      then obtain p where p: "(d, p) \<in> set js" by force
      then have fd: "f d = Some p" using mem by blast
      have "Q p" using none p by fastforce
      then show ?thesis using None True fd by simp
    qed
  next
    case (Some a)
    obtain x p where a: "a = (x, p)" by (cases a)
    from Some have "(x, p) \<in> set ?xs" "del_id x = del_id d"
      unfolding a by (auto dest: find_Some_mem)
    then have "(x, p) \<in> set js" "\<not> Q p" by auto
    with mem have "x \<in> set ds" "P x" "f x = Some p" by blast+
    with dist d \<open>del_id x = del_id d\<close> have "x = d" by (blast intro: distinct_ids_eq)
    then show ?thesis using Some a \<open>P x\<close> \<open>f x = Some p\<close> \<open>\<not> Q p\<close> by simp
  qed
qed

lemma coveringDeliveryBoyId_Some:
  assumes "coveringDeliveryBoyId st bid p = Some x"
  shows "x \<noteq> bid \<and> (\<exists>b\<in>set (deliveryBoys st). boy_id b = x \<and> boy_isActive b \<and> areaContains st b p)"
  using assms by (auto simp: coveringDeliveryBoyId_def dest: find_Some_mem)

lemma reassign_unfold:
  assumes ok: "reassignDeliveryBoyArea bid newAreaId st = Inr (st', boy', n)"
    and ex: "find (\<lambda>b. boy_id b = bid) (deliveryBoys st) = Some existing"
    and ne: "boy_areaId existing \<noteq> newAreaId"
    and ar: "find (\<lambda>a. area_id a = newAreaId) (areas st) = Some newArea"
  shows "\<exists>joined st1.
      those (map (\<lambda>d. map_option (Pair d) (joinPincode st d))
              (filter (\<lambda>d. del_deliveryBoyId d = Some bid \<and> del_status d = ''PENDING'') (deliveries st))) = Some joined \<and>
      reassignLoop bid (filter (\<lambda>(d, p). \<not> includesStr (map trim (split CHR '','' (area_pincodes newArea))) p) joined) st 0 = (st1, n) \<and>
      st' = st1\<lparr>deliveryBoys := map (\<lambda>b. if boy_id b = bid then b\<lparr>boy_areaId := newAreaId\<rparr> else b) (deliveryBoys st1)\<rparr> \<and>
      boy' = existing\<lparr>boy_areaId := newAreaId\<rparr>"
  using ok unfolding reassignDeliveryBoyArea_def ex ar
  by (auto simp: ne Let_def split: option.splits prod.splits)

text \<open>The cascade as one map over the delivery table.\<close>

lemma reassign_cascade_main:
  assumes ok: "reassignDeliveryBoyArea bid newAreaId st = Inr (st', boy', n)"
    and ex: "find (\<lambda>b. boy_id b = bid) (deliveryBoys st) = Some existing"
    and ne: "boy_areaId existing \<noteq> newAreaId"
    and ar: "find (\<lambda>a. area_id a = newAreaId) (areas st) = Some newArea"
    and dist: "distinct (map del_id (deliveries st))"
  defines "pins \<equiv> map trim (split CHR '','' (area_pincodes newArea))"
  defines "mine \<equiv> (\<lambda>d. del_deliveryBoyId d = Some bid \<and> del_status d = ''PENDING'')"
  defines "h \<equiv> (\<lambda>d. if mine d
                      then (case joinPincode st d of
                              Some p \<Rightarrow> if \<not> includesStr pins p
                                        then d\<lparr>del_deliveryBoyId := coveringDeliveryBoyId st bid p\<rparr> else d
                            | None \<Rightarrow> d)
                      else d)"
  shows "deliveries st' = map h (deliveries st)"
    and "\<forall>d\<in>set (deliveries st). mine d \<longrightarrow> joinPincode st d \<noteq> None"
    and "subscriptions st' = subscriptions st"
    and "areas st' = areas st"
    and "deliveryBoys st' =
           map (\<lambda>b. if boy_id b = bid then b\<lparr>boy_areaId := newAreaId\<rparr> else b) (deliveryBoys st)"
    and "boy' = existing\<lparr>boy_areaId := newAreaId\<rparr>"
    and "n = length (filter (\<lambda>d. mine d \<and> (\<exists>p. joinPincode st d = Some p \<and> \<not> includesStr pins p))
                      (deliveries st))"
proof -
  let ?pending = "filter mine (deliveries st)"
  from reassign_unfold [OF ok ex ne ar] obtain joined st1 where
    th: "those (map (\<lambda>d. map_option (Pair d) (joinPincode st d)) ?pending) = Some joined"
    and lp: "reassignLoop bid (filter (\<lambda>(d, p). \<not> includesStr pins p) joined) st 0 = (st1, n)"
    and st': "st' = st1\<lparr>deliveryBoys := map (\<lambda>b. if boy_id b = bid then b\<lparr>boy_areaId := newAreaId\<rparr> else b) (deliveryBoys st1)\<rparr>"
    and boy': "boy' = existing\<lparr>boy_areaId := newAreaId\<rparr>"
    unfolding pins_def mine_def by blast
  let ?xs = "filter (\<lambda>(d, p). \<not> includesStr pins p) joined"
  from joined_shape [OF those_Some [OF th]]
  have js: "map fst joined = ?pending" "\<forall>(d, p)\<in>set joined. joinPincode st d = Some p"
    by blast+
  have "distinct (map del_id ?pending)"
    using dist by (rule distinct_map_filter)
  then have "distinct (map (del_id \<circ> fst) joined)"
    unfolding js(1) [symmetric] by simp
  moreover have "(\<lambda>(x::delivery, p::string). del_id x) = del_id \<circ> fst"
    by auto
  ultimately have "distinct (map (\<lambda>(x, p). del_id x) joined)"
    by simp
  then have dxs: "distinct (map (\<lambda>(x, p). del_id x) ?xs)"
    by (rule distinct_map_filter)
  from reassignLoop_result [OF dxs, of bid st 0] lp
  have st1: "st1 = st\<lparr>deliveries := map (\<lambda>d. case find (\<lambda>(x, p). del_id x = del_id d) ?xs of
                                  None \<Rightarrow> d
                                | Some (x, p) \<Rightarrow> d\<lparr>del_deliveryBoyId := coveringDeliveryBoyId st bid p\<rparr>)
                           (deliveries st)\<rparr>"
    and n: "n = length ?xs" by simp_all
  have pend: "\<forall>d\<in>set (deliveries st). mine d \<longrightarrow> joinPincode st d \<noteq> None"
  proof (intro ballI impI)
    fix d assume "d \<in> set (deliveries st)" "mine d"
    then have "d \<in> set (map fst joined)" unfolding js(1) by simp
    then obtain p where "(d, p) \<in> set joined" by force
    with js(2) show "joinPincode st d \<noteq> None" by auto
  qed
  show "\<forall>d\<in>set (deliveries st). mine d \<longrightarrow> joinPincode st d \<noteq> None" by (rule pend)
  have "map (\<lambda>d. case find (\<lambda>(x, p). del_id x = del_id d) ?xs of
                                  None \<Rightarrow> d
                                | Some (x, p) \<Rightarrow> d\<lparr>del_deliveryBoyId := coveringDeliveryBoyId st bid p\<rparr>)
                           (deliveries st) = map h (deliveries st)"
  proof (rule map_cong [OF refl])
    fix d assume d: "d \<in> set (deliveries st)"
    show "(case find (\<lambda>(x, p). del_id x = del_id d) ?xs of
                                  None \<Rightarrow> d
                                | Some (x, p) \<Rightarrow> d\<lparr>del_deliveryBoyId := coveringDeliveryBoyId st bid p\<rparr>) = h d"
      unfolding cascade_find [OF dist js d, of "includesStr pins"] h_def
      by (simp split: option.splits)
  qed
  with st1 have st1': "st1 = st\<lparr>deliveries := map h (deliveries st)\<rparr>" by simp
  show "deliveries st' = map h (deliveries st)" by (simp add: st' st1')
  show "subscriptions st' = subscriptions st" by (simp add: st' st1')
  show "areas st' = areas st" by (simp add: st' st1')
  show "deliveryBoys st' =
           map (\<lambda>b. if boy_id b = bid then b\<lparr>boy_areaId := newAreaId\<rparr> else b) (deliveryBoys st)"
    by (simp add: st' st1')
  show "boy' = existing\<lparr>boy_areaId := newAreaId\<rparr>" by (rule boy')
  have "length ?xs = length (map fst ?xs)" by simp
  also have "map fst ?xs = filter (\<lambda>d. \<exists>p. joinPincode st d = Some p \<and> \<not> includesStr pins p) (map fst joined)"
    by (rule joined_filter_fst [OF js(2)])
  also have "\<dots> = filter (\<lambda>d. mine d \<and> (\<exists>p. joinPincode st d = Some p \<and> \<not> includesStr pins p)) (deliveries st)"
    unfolding js(1) by (simp add: conj_commute)
  finally show "n = length (filter (\<lambda>d. mine d \<and> (\<exists>p. joinPincode st d = Some p \<and> \<not> includesStr pins p))
                      (deliveries st))"
    using n by simp
qed

text \<open>The substring test, and the pieces of \<^verbatim>\<open>split\<close> and \<^verbatim>\<open>trim\<close> as substrings.\<close>

lemma startsWith_iff: "startsWith s p \<longleftrightarrow> (\<exists>suf. s = p @ suf)"
  by (induction s p rule: startsWith.induct) auto

lemma contains_iff: "contains s p \<longleftrightarrow> (\<exists>pre suf. s = pre @ p @ suf)"
proof (induction s)
  case Nil
  show ?case by auto
next
  case (Cons c cs)
  show ?case
  proof
    assume "contains (c # cs) p"
    then consider "startsWith (c # cs) p" | "contains cs p" by auto
    then show "\<exists>pre suf. c # cs = pre @ p @ suf"
    proof cases
      case 1
      then obtain suf where "c # cs = p @ suf" unfolding startsWith_iff by blast
      then have "c # cs = [] @ p @ suf" by simp
      then show ?thesis by blast
    next
      case 2
      then obtain pre suf where "cs = pre @ p @ suf" unfolding Cons.IH by blast
      then have "c # cs = (c # pre) @ p @ suf" by simp
      then show ?thesis by blast
    qed
  next
    assume "\<exists>pre suf. c # cs = pre @ p @ suf"
    then obtain pre suf where e: "c # cs = pre @ p @ suf" by blast
    show "contains (c # cs) p"
    proof (cases pre)
      case Nil
      with e have "startsWith (c # cs) p" unfolding startsWith_iff by auto
      then show ?thesis by simp
    next
      case (Cons a pre')
      with e have "cs = pre' @ p @ suf" by simp
      then have "contains cs p" unfolding Cons.IH by blast
      then show ?thesis by simp
    qed
  qed
qed

lemma split_nonempty: "split sep s \<noteq> []"
  by (induction s) (auto split: list.splits)

lemma split_head_prefix: "split sep s = w # ws \<Longrightarrow> \<exists>suf. s = w @ suf"
proof (induction s arbitrary: w ws)
  case Nil
  then show ?case by simp
next
  case (Cons c cs)
  show ?case
  proof (cases "c = sep")
    case True
    with Cons.prems show ?thesis by simp
  next
    case False
    obtain v vs where v: "split sep cs = v # vs"
      using split_nonempty [of sep cs] by (cases "split sep cs") auto
    from Cons.IH [OF v] obtain suf where "cs = v @ suf" by blast
    moreover from Cons.prems False v have "w = c # v" by simp
    ultimately show ?thesis by simp
  qed
qed

lemma split_piece_sublist:
  "x \<in> set (split sep s) \<Longrightarrow> \<exists>pre suf. s = pre @ x @ suf"
proof (induction s arbitrary: x)
  case Nil
  then show ?case by simp
next
  case (Cons c cs)
  obtain v vs where v: "split sep cs = v # vs"
    using split_nonempty [of sep cs] by (cases "split sep cs") auto
  show ?case
  proof (cases "c = sep")
    case True
    with Cons.prems have "x = [] \<or> x \<in> set (split sep cs)" by simp
    then show ?thesis
    proof
      assume "x = []"
      then have "c # cs = [] @ x @ (c # cs)" by simp
      then show ?thesis by blast
    next
      assume "x \<in> set (split sep cs)"
      from Cons.IH [OF this] obtain pre suf where "cs = pre @ x @ suf" by blast
      then have "c # cs = (c # pre) @ x @ suf" by simp
      then show ?thesis by blast
    qed
  next
    case False
    with Cons.prems v have "x = c # v \<or> x \<in> set vs" by simp
    then show ?thesis
    proof
      assume x: "x = c # v"
      from split_head_prefix [OF v] obtain suf where "cs = v @ suf" by blast
      with x have "c # cs = [] @ x @ suf" by simp
      then show ?thesis by blast
    next
      assume "x \<in> set vs"
      then have "x \<in> set (split sep cs)" by (simp add: v)
      from Cons.IH [OF this] obtain pre suf where "cs = pre @ x @ suf" by blast
      then have "c # cs = (c # pre) @ x @ suf" by simp
      then show ?thesis by blast
    qed
  qed
qed

lemma trimStart_suffix: "\<exists>pre. s = pre @ trimStart s"
proof (induction s rule: trimStart.induct)
  case (1 a b c cs)
  consider "isWhiteSpace a" | "\<not> isWhiteSpace a" "isWhiteSpace2 a b"
    | "\<not> isWhiteSpace a" "\<not> isWhiteSpace2 a b" "isWhiteSpace3 a b c"
    | "\<not> isWhiteSpace a" "\<not> isWhiteSpace2 a b" "\<not> isWhiteSpace3 a b c" by blast
  then show ?case
  proof cases
    case 1
    with "1.IH"(1) obtain pre where "b # c # cs = pre @ trimStart (b # c # cs)" by blast
    then have "a # b # c # cs = (a # pre) @ trimStart (b # c # cs)" by simp
    with 1 show ?thesis by (metis trimStart.simps(1))
  next
    case 2
    with "1.IH"(2) obtain pre where "c # cs = pre @ trimStart (c # cs)" by blast
    then have "a # b # c # cs = (a # b # pre) @ trimStart (c # cs)" by simp
    with 2 show ?thesis by (metis trimStart.simps(1))
  next
    case 3
    with "1.IH"(3) obtain pre where "cs = pre @ trimStart cs" by blast
    then have "a # b # c # cs = (a # b # c # pre) @ trimStart cs" by simp
    with 3 show ?thesis by (metis trimStart.simps(1))
  next
    case 4
    then have "trimStart (a # b # c # cs) = a # b # c # cs" by simp
    then show ?thesis by (metis append_Nil)
  qed
next
  case (2 a b)
  show ?case
  proof (cases "isWhiteSpace a")
    case True
    with "2.IH" obtain pre where "[b] = pre @ trimStart [b]" by blast
    then have "[a, b] = (a # pre) @ trimStart [b]" by simp
    with True show ?thesis by (metis trimStart.simps(2))
  next
    case False
    then show ?thesis by (cases "isWhiteSpace2 a b") (auto intro: exI [of _ "[a, b]"])
  qed
next
  case (3 a)
  show ?case by (cases "isWhiteSpace a") (auto intro: exI [of _ "[a]"])
next
  case 4
  show ?case by simp
qed

lemma trimStartRev_suffix: "\<exists>pre. s = pre @ trimStartRev s"
proof (induction s rule: trimStartRev.induct)
  case (1 a b c cs)
  consider "isWhiteSpace a" | "\<not> isWhiteSpace a" "isWhiteSpace2 b a"
    | "\<not> isWhiteSpace a" "\<not> isWhiteSpace2 b a" "isWhiteSpace3 c b a"
    | "\<not> isWhiteSpace a" "\<not> isWhiteSpace2 b a" "\<not> isWhiteSpace3 c b a" by blast
  then show ?case
  proof cases
    case 1
    with "1.IH"(1) obtain pre where "b # c # cs = pre @ trimStartRev (b # c # cs)" by blast
    then have "a # b # c # cs = (a # pre) @ trimStartRev (b # c # cs)" by simp
    with 1 show ?thesis by (metis trimStartRev.simps(1))
  next
    case 2
    with "1.IH"(2) obtain pre where "c # cs = pre @ trimStartRev (c # cs)" by blast
    then have "a # b # c # cs = (a # b # pre) @ trimStartRev (c # cs)" by simp
    with 2 show ?thesis by (metis trimStartRev.simps(1))
  next
    case 3
    with "1.IH"(3) obtain pre where "cs = pre @ trimStartRev cs" by blast
    then have "a # b # c # cs = (a # b # c # pre) @ trimStartRev cs" by simp
    with 3 show ?thesis by (metis trimStartRev.simps(1))
  next
    case 4
    then have "trimStartRev (a # b # c # cs) = a # b # c # cs" by simp
    then show ?thesis by (metis append_Nil)
  qed
next
  case (2 a b)
  show ?case
  proof (cases "isWhiteSpace a")
    case True
    with "2.IH" obtain pre where "[b] = pre @ trimStartRev [b]" by blast
    then have "[a, b] = (a # pre) @ trimStartRev [b]" by simp
    with True show ?thesis by (metis trimStartRev.simps(2))
  next
    case False
    then show ?thesis by (cases "isWhiteSpace2 b a") (auto intro: exI [of _ "[a, b]"])
  qed
next
  case (3 a)
  show ?case by (cases "isWhiteSpace a") (auto intro: exI [of _ "[a]"])
next
  case 4
  show ?case by simp
qed

lemma trim_sublist: "\<exists>pre suf. s = pre @ trim s @ suf"
proof -
  obtain pre where p: "s = pre @ trimStart s" using trimStart_suffix by blast
  obtain q where q: "rev (trimStart s) = q @ trimStartRev (rev (trimStart s))"
    using trimStartRev_suffix by blast
  have "trimStart s = rev (rev (trimStart s))" by simp
  also have "\<dots> = rev (q @ trimStartRev (rev (trimStart s)))" using q by simp
  also have "\<dots> = trim s @ rev q" by (simp add: trim_def)
  finally have "s = pre @ trim s @ rev q" using p by simp
  then show ?thesis by blast
qed

text \<open>A code in the pincode list of an area is a substring of the stored string.\<close>

lemma includes_contains:
  assumes "includesStr (map trim (split CHR '','' s)) p"
  shows "contains s p"
proof -
  from assms obtain x where x: "x \<in> set (split CHR '','' s)" "p = trim x"
    by (auto simp: includesStr_def)
  from split_piece_sublist [OF x(1)] obtain pre suf where s: "s = pre @ x @ suf" by blast
  from trim_sublist [of x] obtain pre' suf' where "x = pre' @ p @ suf'" unfolding x(2) by blast
  with s have "s = (pre @ pre') @ p @ (suf' @ suf)" by simp
  then show ?thesis unfolding contains_iff by blast
qed

text \<open>The rows of the cascade.\<close>

lemma coveringDeliveryBoyId_other: "coveringDeliveryBoyId st bid p \<noteq> Some bid"
  using coveringDeliveryBoyId_Some [of st bid p bid] by auto

lemma cascadeRow_other:
  "del_status d \<noteq> ''PENDING'' \<or> del_deliveryBoyId d \<noteq> Some bid \<Longrightarrow> cascadeRow st bid pins d = d"
  by (auto simp: cascadeRow_def)

lemma cascadeRow_kept:
  assumes "del_status d = ''PENDING''" "del_deliveryBoyId d = Some bid"
    "joinPincode st d = Some p" "includesStr pins p"
  shows "cascadeRow st bid pins d = d"
  using assms by (simp add: cascadeRow_def)

lemma cascadeRow_moved:
  assumes "del_status d = ''PENDING''" "del_deliveryBoyId d = Some bid"
    "joinPincode st d = Some p" "\<not> includesStr pins p"
  shows "cascadeRow st bid pins d = d\<lparr>del_deliveryBoyId := coveringDeliveryBoyId st bid p\<rparr>"
  using assms by (simp add: cascadeRow_def)

lemma cascadeRow_left:
  assumes "del_status (cascadeRow st bid pins d) = ''PENDING''"
    and "del_deliveryBoyId (cascadeRow st bid pins d) = Some bid"
    and "joinPincode st d \<noteq> None"
  shows "cascadeRow st bid pins d = d \<and> (\<exists>p. joinPincode st d = Some p \<and> includesStr pins p)"
proof -
  from assms(3) obtain p where p: "joinPincode st d = Some p" by auto
  show ?thesis
  proof (cases "del_status d = ''PENDING'' \<and> del_deliveryBoyId d = Some bid")
    case False
    then have "cascadeRow st bid pins d = d" by (auto simp: cascadeRow_def)
    with assms(1,2) False show ?thesis by simp
  next
    case True
    show ?thesis
    proof (cases "includesStr pins p")
      case True
      with \<open>del_status d = ''PENDING'' \<and> del_deliveryBoyId d = Some bid\<close> p
      show ?thesis by (simp add: cascadeRow_def)
    next
      case False
      with True p have "del_deliveryBoyId (cascadeRow st bid pins d) = coveringDeliveryBoyId st bid p"
        by (simp add: cascadeRow_def)
      with assms(2) coveringDeliveryBoyId_other [of st bid p] show ?thesis by simp
    qed
  qed
qed

lemma reassign_cascade_rows:
  assumes ok: "reassignDeliveryBoyArea bid newAreaId st = Inr (st', boy', n)"
    and ex: "find (\<lambda>b. boy_id b = bid) (deliveryBoys st) = Some existing"
    and ne: "boy_areaId existing \<noteq> newAreaId"
    and ar: "find (\<lambda>a. area_id a = newAreaId) (areas st) = Some newArea"
    and dist: "distinct (map del_id (deliveries st))"
  shows "deliveries st' =
           map (cascadeRow st bid (map trim (split CHR '','' (area_pincodes newArea)))) (deliveries st)"
proof -
  have "cascadeRow st bid (map trim (split CHR '','' (area_pincodes newArea))) =
        (\<lambda>d. if del_deliveryBoyId d = Some bid \<and> del_status d = ''PENDING''
              then (case joinPincode st d of
                      Some p \<Rightarrow> if \<not> includesStr (map trim (split CHR '','' (area_pincodes newArea))) p
                                then d\<lparr>del_deliveryBoyId := coveringDeliveryBoyId st bid p\<rparr> else d
                    | None \<Rightarrow> d)
              else d)"
    by (rule ext) (simp only: cascadeRow_def)
  then show ?thesis
    using reassign_cascade_main(1) [OF ok ex ne ar dist] by (simp only:)
qed

lemma cascade_same_area:
  assumes ok: "reassignDeliveryBoyArea bid newAreaId st = Inr (st', boy', n)"
    and ex: "find (\<lambda>b. boy_id b = bid) (deliveryBoys st) = Some existing"
    and ar: "find (\<lambda>a. area_id a = newAreaId) (areas st) = Some newArea"
    and same: "boy_areaId existing = newAreaId"
  shows "st' = st \<and> boy' = existing \<and> n = 0"
  using ok unfolding reassignDeliveryBoyArea_def ex ar by (simp add: same)

lemma cascade_pointwise:
  assumes rows: "deliveries st' = map (cascadeRow st bid pins) (deliveries st)"
    and jp: "\<forall>d\<in>set (deliveries st).
               del_deliveryBoyId d = Some bid \<and> del_status d = ''PENDING'' \<longrightarrow> joinPincode st d \<noteq> None"
    and i: "i < length (deliveries st)"
  shows "(del_status (deliveries st ! i) \<noteq> ''PENDING'' \<or>
          del_deliveryBoyId (deliveries st ! i) \<noteq> Some bid \<longrightarrow>
            deliveries st' ! i = deliveries st ! i) \<and>
         (del_status (deliveries st ! i) = ''PENDING'' \<and>
          del_deliveryBoyId (deliveries st ! i) = Some bid \<longrightarrow>
            (\<exists>p. joinPincode st (deliveries st ! i) = Some p \<and>
               (includesStr pins p \<longrightarrow> deliveries st' ! i = deliveries st ! i) \<and>
               (\<not> includesStr pins p \<longrightarrow>
                  deliveries st' ! i =
                    (deliveries st ! i)\<lparr>del_deliveryBoyId := coveringDeliveryBoyId st bid p\<rparr> \<and>
                  del_deliveryBoyId (deliveries st' ! i) \<noteq> Some bid \<and>
                  (\<forall>x. del_deliveryBoyId (deliveries st' ! i) = Some x \<longrightarrow>
                     (\<exists>b\<in>set (deliveryBoys st). boy_id b = x \<and> boy_isActive b)))))"
proof -
  define d where "d = deliveries st ! i"
  have din: "d \<in> set (deliveries st)" using i by (simp add: d_def)
  have d': "deliveries st' ! i = cascadeRow st bid pins d" using i by (simp add: rows d_def)
  have a: "del_status d \<noteq> ''PENDING'' \<or> del_deliveryBoyId d \<noteq> Some bid \<longrightarrow>
            cascadeRow st bid pins d = d"
    using cascadeRow_other [of d bid st pins] by blast
  have b: "\<exists>p. joinPincode st d = Some p \<and>
               (includesStr pins p \<longrightarrow> cascadeRow st bid pins d = d) \<and>
               (\<not> includesStr pins p \<longrightarrow>
                  cascadeRow st bid pins d = d\<lparr>del_deliveryBoyId := coveringDeliveryBoyId st bid p\<rparr> \<and>
                  del_deliveryBoyId (cascadeRow st bid pins d) \<noteq> Some bid \<and>
                  (\<forall>x. del_deliveryBoyId (cascadeRow st bid pins d) = Some x \<longrightarrow>
                     (\<exists>b\<in>set (deliveryBoys st). boy_id b = x \<and> boy_isActive b)))"
    if m: "del_status d = ''PENDING''" "del_deliveryBoyId d = Some bid"
  proof -
    from jp din m obtain p where p: "joinPincode st d = Some p" by auto
    have k: "includesStr pins p \<longrightarrow> cascadeRow st bid pins d = d"
      using cascadeRow_kept [OF m p] by simp
    have mv: "cascadeRow st bid pins d = d\<lparr>del_deliveryBoyId := coveringDeliveryBoyId st bid p\<rparr>"
      if "\<not> includesStr pins p"
      using cascadeRow_moved [OF m p that] .
    have nb: "del_deliveryBoyId (cascadeRow st bid pins d) \<noteq> Some bid" if "\<not> includesStr pins p"
      using mv [OF that] coveringDeliveryBoyId_other [of st bid p] by simp
    have act: "\<exists>b\<in>set (deliveryBoys st). boy_id b = x \<and> boy_isActive b"
      if "\<not> includesStr pins p" "del_deliveryBoyId (cascadeRow st bid pins d) = Some x" for x
    proof -
      from that mv have "coveringDeliveryBoyId st bid p = Some x" by simp
      from coveringDeliveryBoyId_Some [OF this] show ?thesis by blast
    qed
    from p k mv nb act show ?thesis by blast
  qed
  show ?thesis
    unfolding d' d_def [symmetric] using a b by blast
qed

lemma cascade_left_behind:
  assumes rows: "deliveries st' = map (cascadeRow st bid pins) (deliveries st)"
    and jp: "\<forall>d\<in>set (deliveries st).
               del_deliveryBoyId d = Some bid \<and> del_status d = ''PENDING'' \<longrightarrow> joinPincode st d \<noteq> None"
    and subs: "subscriptions st' = subscriptions st"
    and d': "d' \<in> set (deliveries st')"
    and m: "del_status d' = ''PENDING''" "del_deliveryBoyId d' = Some bid"
  shows "\<exists>p. joinPincode st' d' = Some p \<and> includesStr pins p"
proof -
  from d' obtain d where d: "d \<in> set (deliveries st)" "d' = cascadeRow st bid pins d"
    unfolding rows by auto
  have same: "joinPincode st' x = joinPincode st x" for x
    by (simp add: joinPincode_def subs)
  show ?thesis
  proof (cases "del_status d = ''PENDING'' \<and> del_deliveryBoyId d = Some bid")
    case False
    then have "d' = d" unfolding d(2) using cascadeRow_other [of d bid st pins] by blast
    with m False show ?thesis by simp
  next
    case True
    with jp d(1) have ne: "joinPincode st d \<noteq> None" by blast
    from cascadeRow_left [OF m [unfolded d(2)] ne]
    have "d' = d" "\<exists>p. joinPincode st d = Some p \<and> includesStr pins p"
      unfolding d(2) by blast+
    then show ?thesis by (simp add: same)
  qed
qed

lemma transformArea_contains:
  assumes "includesStr (transformAreaPincodes a) p"
  shows "contains (area_pincodes a) p"
proof (cases "area_pincodes a = []")
  case True
  with assms show ?thesis by (simp add: transformAreaPincodes_def includesStr_def)
next
  case False
  with assms have "includesStr (map trim (split CHR '','' (area_pincodes a))) p"
    by (simp add: transformAreaPincodes_def)
  then show ?thesis by (rule includes_contains)
qed

lemma coveringDeliveryBoyId_found:
  assumes "b \<in> set (deliveryBoys st)" "boy_id b \<noteq> bid" "boy_isActive b"
    and "find (\<lambda>a. area_id a = boy_areaId b) (areas st) = Some a"
    and "includesStr (transformAreaPincodes a) p"
  shows "coveringDeliveryBoyId st bid p \<noteq> None"
proof -
  have "areaContains st b p"
    using assms(4) transformArea_contains [OF assms(5)] by (simp add: areaContains_def)
  with assms(1-3)
  have "find (\<lambda>b. boy_id b \<noteq> bid \<and> boy_isActive b \<and> areaContains st b p) (deliveryBoys st) \<noteq> None"
    unfolding find_None_iff by blast
  then show ?thesis by (simp add: coveringDeliveryBoyId_def)
qed

lemma cascade_not_unassigned:
  assumes rows: "deliveries st' = map (cascadeRow st bid pins) (deliveries st)"
    and i: "i < length (deliveries st)"
    and m: "del_status (deliveries st ! i) = ''PENDING''"
           "del_deliveryBoyId (deliveries st ! i) = Some bid"
    and p: "joinPincode st (deliveries st ! i) = Some p" "\<not> includesStr pins p"
    and b: "b \<in> set (deliveryBoys st)" "boy_id b \<noteq> bid" "boy_isActive b"
           "find (\<lambda>a. area_id a = boy_areaId b) (areas st) = Some a"
           "includesStr (transformAreaPincodes a) p"
  shows "del_deliveryBoyId (deliveries st' ! i) \<noteq> None"
proof -
  have "deliveries st' ! i = cascadeRow st bid pins (deliveries st ! i)"
    using i by (simp add: rows)
  also have "\<dots> = (deliveries st ! i)\<lparr>del_deliveryBoyId := coveringDeliveryBoyId st bid p\<rparr>"
    by (rule cascadeRow_moved [OF m p])
  finally show ?thesis
    using coveringDeliveryBoyId_found [OF b] by simp
qed

lemmas cascade_eval =
  reassignDeliveryBoyArea_def cascadeStore_def cascadeStoreAfter_def areaA_def areaB_def
  areaC_def boyA_def boyB_def alternateSub_def exampleAddress_def pendingDelivery_def
  joinPincode_def includesStr_def trim_def isWhiteSpace_def isWhiteSpace2_def
  isWhiteSpace3_def areaContains_def updateDelivery_def transformAreaPincodes_def
  findDeliveryBoyForPincode_def createArea_def seedArea_def seedStore_def
  coveringDeliveryBoyId_def Let_def

text \<open>
  C2.  The cascade, for a call that succeeds on a delivery table with unique ids.  When
  the new area is the delivery boy's current area, nothing is changed.  Otherwise every
  row that is not a pending delivery of the delivery boy stays as it is; each of his
  pending deliveries has an address pincode; one whose pincode is in the new area's
  list stays as it is; one whose pincode is not in the list gets the id returned by the
  loop's query, which is never his own id and, when there is one, is the id of an
  active delivery boy, and it is not left unassigned when an active delivery boy other
  than him has an area whose pincode list contains the pincode.  Afterwards every
  pending delivery of the delivery boy has its pincode in the new area's list, his area
  is the new area, and the count is the number of deliveries moved.
\<close>

theorem reassignDeliveryBoyArea_cascade:
  assumes ok: "reassignDeliveryBoyArea bid newAreaId st = Inr (st', boy', n)"
    and ex: "find (\<lambda>b. boy_id b = bid) (deliveryBoys st) = Some existing"
    and ar: "find (\<lambda>a. area_id a = newAreaId) (areas st) = Some newArea"
    and dist: "distinct (map del_id (deliveries st))"
  shows "(boy_areaId existing = newAreaId \<longrightarrow> st' = st \<and> boy' = existing \<and> n = 0) \<and>
    (boy_areaId existing \<noteq> newAreaId \<longrightarrow>
      length (deliveries st') = length (deliveries st) \<and>
      (\<forall>i<length (deliveries st).
         (del_status (deliveries st ! i) \<noteq> ''PENDING'' \<or>
          del_deliveryBoyId (deliveries st ! i) \<noteq> Some bid \<longrightarrow>
            deliveries st' ! i = deliveries st ! i) \<and>
         (del_status (deliveries st ! i) = ''PENDING'' \<and>
          del_deliveryBoyId (deliveries st ! i) = Some bid \<longrightarrow>
            (\<exists>p. joinPincode st (deliveries st ! i) = Some p \<and>
               (includesStr (map trim (split CHR '','' (area_pincodes newArea))) p \<longrightarrow>
                  deliveries st' ! i = deliveries st ! i) \<and>
               (\<not> includesStr (map trim (split CHR '','' (area_pincodes newArea))) p \<longrightarrow>
                  deliveries st' ! i =
                    (deliveries st ! i)\<lparr>del_deliveryBoyId := coveringDeliveryBoyId st bid p\<rparr> \<and>
                  del_deliveryBoyId (deliveries st' ! i) \<noteq> Some bid \<and>
                  (\<forall>x. del_deliveryBoyId (deliveries st' ! i) = Some x \<longrightarrow>
                     (\<exists>b\<in>set (deliveryBoys st). boy_id b = x \<and> boy_isActive b)))))) \<and>
      (\<forall>i<length (deliveries st). \<forall>p b a.
         del_status (deliveries st ! i) = ''PENDING'' \<and>
         del_deliveryBoyId (deliveries st ! i) = Some bid \<and>
         joinPincode st (deliveries st ! i) = Some p \<and>
         \<not> includesStr (map trim (split CHR '','' (area_pincodes newArea))) p \<and>
         b \<in> set (deliveryBoys st) \<and> boy_id b \<noteq> bid \<and> boy_isActive b \<and>
         find (\<lambda>a. area_id a = boy_areaId b) (areas st) = Some a \<and>
         includesStr (transformAreaPincodes a) p \<longrightarrow>
           del_deliveryBoyId (deliveries st' ! i) \<noteq> None) \<and>
      (\<forall>d\<in>set (deliveries st').
         del_status d = ''PENDING'' \<and> del_deliveryBoyId d = Some bid \<longrightarrow>
           (\<exists>p. joinPincode st' d = Some p \<and>
                includesStr (map trim (split CHR '','' (area_pincodes newArea))) p)) \<and>
      (\<forall>b\<in>set (deliveryBoys st'). boy_id b = bid \<longrightarrow> boy_areaId b = newAreaId) \<and>
      boy_areaId boy' = newAreaId \<and>
      find (\<lambda>a. area_id a = newAreaId) (areas st') = Some newArea \<and>
      n = length (filter (\<lambda>d. (del_deliveryBoyId d = Some bid \<and> del_status d = ''PENDING'') \<and>
                     (\<exists>p. joinPincode st d = Some p \<and>
                        \<not> includesStr (map trim (split CHR '','' (area_pincodes newArea))) p))
                   (deliveries st)))"
proof -
  let ?pins = "map trim (split CHR '','' (area_pincodes newArea))"
  have A: "st' = st \<and> boy' = existing \<and> n = 0" if "boy_areaId existing = newAreaId"
    using cascade_same_area [OF ok ex ar that] .
  have B: "length (deliveries st') = length (deliveries st) \<and>
      (\<forall>i<length (deliveries st).
         (del_status (deliveries st ! i) \<noteq> ''PENDING'' \<or>
          del_deliveryBoyId (deliveries st ! i) \<noteq> Some bid \<longrightarrow>
            deliveries st' ! i = deliveries st ! i) \<and>
         (del_status (deliveries st ! i) = ''PENDING'' \<and>
          del_deliveryBoyId (deliveries st ! i) = Some bid \<longrightarrow>
            (\<exists>p. joinPincode st (deliveries st ! i) = Some p \<and>
               (includesStr ?pins p \<longrightarrow> deliveries st' ! i = deliveries st ! i) \<and>
               (\<not> includesStr ?pins p \<longrightarrow>
                  deliveries st' ! i =
                    (deliveries st ! i)\<lparr>del_deliveryBoyId := coveringDeliveryBoyId st bid p\<rparr> \<and>
                  del_deliveryBoyId (deliveries st' ! i) \<noteq> Some bid \<and>
                  (\<forall>x. del_deliveryBoyId (deliveries st' ! i) = Some x \<longrightarrow>
                     (\<exists>b\<in>set (deliveryBoys st). boy_id b = x \<and> boy_isActive b)))))) \<and>
      (\<forall>i<length (deliveries st). \<forall>p b a.
         del_status (deliveries st ! i) = ''PENDING'' \<and>
         del_deliveryBoyId (deliveries st ! i) = Some bid \<and>
         joinPincode st (deliveries st ! i) = Some p \<and>
         \<not> includesStr ?pins p \<and>
         b \<in> set (deliveryBoys st) \<and> boy_id b \<noteq> bid \<and> boy_isActive b \<and>
         find (\<lambda>a. area_id a = boy_areaId b) (areas st) = Some a \<and>
         includesStr (transformAreaPincodes a) p \<longrightarrow>
           del_deliveryBoyId (deliveries st' ! i) \<noteq> None) \<and>
      (\<forall>d\<in>set (deliveries st').
         del_status d = ''PENDING'' \<and> del_deliveryBoyId d = Some bid \<longrightarrow>
           (\<exists>p. joinPincode st' d = Some p \<and> includesStr ?pins p)) \<and>
      (\<forall>b\<in>set (deliveryBoys st'). boy_id b = bid \<longrightarrow> boy_areaId b = newAreaId) \<and>
      boy_areaId boy' = newAreaId \<and>
      find (\<lambda>a. area_id a = newAreaId) (areas st') = Some newArea \<and>
      n = length (filter (\<lambda>d. (del_deliveryBoyId d = Some bid \<and> del_status d = ''PENDING'') \<and>
                     (\<exists>p. joinPincode st d = Some p \<and> \<not> includesStr ?pins p))
                   (deliveries st))"
    if ne: "boy_areaId existing \<noteq> newAreaId"
  proof -
    note rows = reassign_cascade_rows [OF ok ex ne ar dist]
    note jp = reassign_cascade_main(2) [OF ok ex ne ar dist]
    note subs = reassign_cascade_main(3) [OF ok ex ne ar dist]
    note ars = reassign_cascade_main(4) [OF ok ex ne ar dist]
    note boys = reassign_cascade_main(5) [OF ok ex ne ar dist]
    note boy = reassign_cascade_main(6) [OF ok ex ne ar dist]
    note cnt = reassign_cascade_main(7) [OF ok ex ne ar dist]
    have 1: "length (deliveries st') = length (deliveries st)"
      unfolding rows by (rule length_map)
    have 2: "\<forall>i<length (deliveries st).
         (del_status (deliveries st ! i) \<noteq> ''PENDING'' \<or>
          del_deliveryBoyId (deliveries st ! i) \<noteq> Some bid \<longrightarrow>
            deliveries st' ! i = deliveries st ! i) \<and>
         (del_status (deliveries st ! i) = ''PENDING'' \<and>
          del_deliveryBoyId (deliveries st ! i) = Some bid \<longrightarrow>
            (\<exists>p. joinPincode st (deliveries st ! i) = Some p \<and>
               (includesStr ?pins p \<longrightarrow> deliveries st' ! i = deliveries st ! i) \<and>
               (\<not> includesStr ?pins p \<longrightarrow>
                  deliveries st' ! i =
                    (deliveries st ! i)\<lparr>del_deliveryBoyId := coveringDeliveryBoyId st bid p\<rparr> \<and>
                  del_deliveryBoyId (deliveries st' ! i) \<noteq> Some bid \<and>
                  (\<forall>x. del_deliveryBoyId (deliveries st' ! i) = Some x \<longrightarrow>
                     (\<exists>b\<in>set (deliveryBoys st). boy_id b = x \<and> boy_isActive b)))))"
    proof (intro allI impI)
      fix i assume i: "i < length (deliveries st)"
      show "(del_status (deliveries st ! i) \<noteq> ''PENDING'' \<or>
          del_deliveryBoyId (deliveries st ! i) \<noteq> Some bid \<longrightarrow>
            deliveries st' ! i = deliveries st ! i) \<and>
         (del_status (deliveries st ! i) = ''PENDING'' \<and>
          del_deliveryBoyId (deliveries st ! i) = Some bid \<longrightarrow>
            (\<exists>p. joinPincode st (deliveries st ! i) = Some p \<and>
               (includesStr ?pins p \<longrightarrow> deliveries st' ! i = deliveries st ! i) \<and>
               (\<not> includesStr ?pins p \<longrightarrow>
                  deliveries st' ! i =
                    (deliveries st ! i)\<lparr>del_deliveryBoyId := coveringDeliveryBoyId st bid p\<rparr> \<and>
                  del_deliveryBoyId (deliveries st' ! i) \<noteq> Some bid \<and>
                  (\<forall>x. del_deliveryBoyId (deliveries st' ! i) = Some x \<longrightarrow>
                     (\<exists>b\<in>set (deliveryBoys st). boy_id b = x \<and> boy_isActive b)))))"
        by (rule cascade_pointwise [OF rows jp i])
    qed
    have 7: "\<forall>i<length (deliveries st). \<forall>p b a.
         del_status (deliveries st ! i) = ''PENDING'' \<and>
         del_deliveryBoyId (deliveries st ! i) = Some bid \<and>
         joinPincode st (deliveries st ! i) = Some p \<and>
         \<not> includesStr ?pins p \<and>
         b \<in> set (deliveryBoys st) \<and> boy_id b \<noteq> bid \<and> boy_isActive b \<and>
         find (\<lambda>a. area_id a = boy_areaId b) (areas st) = Some a \<and>
         includesStr (transformAreaPincodes a) p \<longrightarrow>
           del_deliveryBoyId (deliveries st' ! i) \<noteq> None"
    proof (intro allI impI)
      fix i p b a
      assume i: "i < length (deliveries st)"
        and h: "del_status (deliveries st ! i) = ''PENDING'' \<and>
         del_deliveryBoyId (deliveries st ! i) = Some bid \<and>
         joinPincode st (deliveries st ! i) = Some p \<and>
         \<not> includesStr ?pins p \<and>
         b \<in> set (deliveryBoys st) \<and> boy_id b \<noteq> bid \<and> boy_isActive b \<and>
         find (\<lambda>a. area_id a = boy_areaId b) (areas st) = Some a \<and>
         includesStr (transformAreaPincodes a) p"
      from h have h1: "del_status (deliveries st ! i) = ''PENDING''"
        and h2: "del_deliveryBoyId (deliveries st ! i) = Some bid"
        and h3: "joinPincode st (deliveries st ! i) = Some p"
        and h4: "\<not> includesStr ?pins p"
        and h5: "b \<in> set (deliveryBoys st)" and h6: "boy_id b \<noteq> bid" and h7: "boy_isActive b"
        and h8: "find (\<lambda>a. area_id a = boy_areaId b) (areas st) = Some a"
        and h9: "includesStr (transformAreaPincodes a) p"
        by blast+
      show "del_deliveryBoyId (deliveries st' ! i) \<noteq> None"
        by (rule cascade_not_unassigned [OF rows i h1 h2 h3 h4 h5 h6 h7 h8 h9])
    qed
    have 3: "\<forall>d\<in>set (deliveries st').
         del_status d = ''PENDING'' \<and> del_deliveryBoyId d = Some bid \<longrightarrow>
           (\<exists>p. joinPincode st' d = Some p \<and> includesStr ?pins p)"
    proof (intro ballI impI)
      fix d assume d: "d \<in> set (deliveries st')"
        and m: "del_status d = ''PENDING'' \<and> del_deliveryBoyId d = Some bid"
      from m have m1: "del_status d = ''PENDING''" and m2: "del_deliveryBoyId d = Some bid"
        by blast+
      show "\<exists>p. joinPincode st' d = Some p \<and> includesStr ?pins p"
        by (rule cascade_left_behind [OF rows jp subs d m1 m2])
    qed
    have 4: "\<forall>b\<in>set (deliveryBoys st'). boy_id b = bid \<longrightarrow> boy_areaId b = newAreaId"
    proof (intro ballI impI)
      fix b assume b: "b \<in> set (deliveryBoys st')" and bb: "boy_id b = bid"
      from b have "b \<in> (\<lambda>b. if boy_id b = bid then b\<lparr>boy_areaId := newAreaId\<rparr> else b) `
                    set (deliveryBoys st)"
        unfolding boys by simp
      then obtain b0 where b0: "b = (if boy_id b0 = bid then b0\<lparr>boy_areaId := newAreaId\<rparr> else b0)"
        by (rule imageE)
      show "boy_areaId b = newAreaId"
      proof (cases "boy_id b0 = bid")
        case True
        with b0 show ?thesis by simp
      next
        case False
        with b0 bb show ?thesis by simp
      qed
    qed
    have 5: "boy_areaId boy' = newAreaId" unfolding boy by simp
    have 6: "find (\<lambda>a. area_id a = newAreaId) (areas st') = Some newArea"
      unfolding ars by (rule ar)
    from 1 2 7 3 4 5 6 cnt show ?thesis by (intro conjI)
  qed
  show ?thesis
    apply (rule conjI)
     apply (rule impI)
     apply (erule A)
    apply (rule impI)
    apply (erule B)
    done
qed

theorem reassignDeliveryBoyArea_cascade_witness:
  "reassignDeliveryBoyArea ''BA'' ''A3'' cascadeStore =
     Inr (cascadeStoreAfter, boyA\<lparr>boy_areaId := ''A3''\<rparr>, 1) \<and>
   find (\<lambda>b. boy_id b = ''BA'') (deliveryBoys cascadeStore) = Some boyA \<and>
   find (\<lambda>a. area_id a = ''A3'') (areas cascadeStore) = Some areaC \<and>
   distinct (map del_id (deliveries cascadeStore)) \<and>
   boy_areaId boyA \<noteq> ''A3'' \<and>
   deliveries cascadeStoreAfter = [pendingDelivery 0 ''S1'' (Some ''BB'') 1704067200000] \<and>
   map boy_areaId (deliveryBoys cascadeStoreAfter) = [''A3'', ''A2'']"
  using reassignDeliveryBoyArea_cascade
          [of "''BA''" "''A3''" cascadeStore cascadeStoreAfter "boyA\<lparr>boy_areaId := ''A3''\<rparr>" 1
              boyA areaC]
  by (simp add: cascade_eval)

text \<open>
  With the new area equal to the current one the call succeeds and writes nothing: the
  pending delivery of \<open>BA\<close> for pincode 110003, outside area \<open>A1\<close> and covered by \<open>BB\<close>,
  stays with \<open>BA\<close>.
\<close>

theorem reassign_same_area_counterexample:
  "reassignDeliveryBoyArea ''BA'' ''A1'' cascadeStore = Inr (cascadeStore, boyA, 0) \<and>
   deliveries cascadeStore = [pendingDelivery 0 ''S1'' (Some ''BA'') 1704067200000] \<and>
   del_status (pendingDelivery 0 ''S1'' (Some ''BA'') 1704067200000) = ''PENDING'' \<and>
   joinPincode cascadeStore (pendingDelivery 0 ''S1'' (Some ''BA'') 1704067200000) =
     Some ''110003'' \<and>
   boy_areaId boyA = ''A1'' \<and> area_id areaA = ''A1'' \<and>
   areas cascadeStore = [areaA, areaB, areaC] \<and>
   \<not> includesStr (transformAreaPincodes areaA) ''110003'' \<and>
   findDeliveryBoyForPincode ''110003'' cascadeStore = Some boyB"
  by (simp add: cascade_eval)

text \<open>What the resolver returns is an active delivery boy matched by the filter, and it
  returns none only when no active delivery boy's pincode list holds the pincode.\<close>

lemma findDeliveryBoyForPincode_Some:
  assumes "findDeliveryBoyForPincode pincode st = Some b"
  shows "b \<in> set (deliveryBoys st) \<and> boy_isActive b \<and> areaContains st b pincode"
  using assms by (auto simp: findDeliveryBoyForPincode_def dest: find_Some_mem)

lemma findDeliveryBoyForPincode_None:
  assumes "findDeliveryBoyForPincode pincode st = None"
    and "b \<in> set (deliveryBoys st)" "boy_isActive b"
    and "find (\<lambda>a. area_id a = boy_areaId b) (areas st) = Some a"
  shows "\<not> includesStr (transformAreaPincodes a) pincode"
proof
  assume "includesStr (transformAreaPincodes a) pincode"
  then have "areaContains st b pincode"
    using assms(4) transformArea_contains by (simp add: areaContains_def)
  with assms(2,3)
  have "find (\<lambda>b. boy_isActive b \<and> areaContains st b pincode) (deliveryBoys st) \<noteq> None"
    unfolding find_None_iff by blast
  with assms(1) show False by (simp add: findDeliveryBoyForPincode_def)
qed

text \<open>
  C8.  The resolver matches substrings of the stored pincode string.  The area made from
  the codes 110001 and 110002 is stored as \<^verbatim>\<open>110001,110002\<close>; for the pincode \<^verbatim>\<open>10001\<close>
  the resolver returns the delivery boy of that area, whose pincode list does not hold
  \<^verbatim>\<open>10001\<close>.
\<close>

theorem findDeliveryBoyForPincode_substring:
  "createArea ''A1'' [''110001'', ''110002'']
       \<lparr>subscriptions = [], areas = [], deliveryBoys = [boyA], deliveries = []\<rparr> =
     (seedStore, seedArea) \<and>
   transformAreaPincodes seedArea = [''110001'', ''110002''] \<and>
   findDeliveryBoyForPincode ''10001'' seedStore = Some boyA \<and>
   \<not> includesStr (transformAreaPincodes seedArea) ''10001''"
  by (simp add: cascade_eval)

end
